theory Spec2Isabelle
  imports Complex_Main "HOL-Library.AList" "HOL-Library.Sublist"
begin

section \<open>Numbers\<close>

text \<open>
  The program is JavaScript. Its numbers are modelled as exact rationals (\<open>rat\<close>), and
  numbers that are integers by construction (image dimensions, results of
  \<^verbatim>\<open>Math.floor\<close>) as \<open>int\<close>. Rounding of IEEE doubles, NaN and infinities are
  outside this model: every comparison, \<^verbatim>\<open>Math.min\<close>, \<^verbatim>\<open>Math.max\<close> and
  \<^verbatim>\<open>Math.floor\<close> of the source is the exact one here.
\<close>

section \<open>JavaScript values (what config.js builds and \<^verbatim>\<open>mergeConfig\<close> receives)\<close>

text \<open>
  Values are modelled structurally: what \<^verbatim>\<open>JSON.parse\<close> can produce, \<^verbatim>\<open>undefined\<close>,
  and the members that every plain object inherits from \<^verbatim>\<open>Object.prototype\<close>
  (\<open>JBuiltin\<close>, see \<open>inherited\<close>). An object is the list of its own properties in
  definition order; as in an object literal or a JSON text, a later definition of a key
  replaces an earlier one, so a lookup reads the last binding.
\<close>

datatype jsval =
    JUndefined
  | JNull
  | JBool bool
  | JNum rat
  | JStr string
  | JArr "jsval list"
  | JObj "(string \<times> jsval) list"
  | JBuiltin string

text \<open>The only exception these functions can raise: a property read on \<^verbatim>\<open>undefined\<close> or \<^verbatim>\<open>null\<close>.\<close>

datatype error = TypeError

text \<open>
  The property names of \<^verbatim>\<open>Object.prototype\<close>. A read \<^verbatim>\<open>obj[k]\<close> on a plain object
  that has no own property \<open>k\<close> walks the prototype chain and finds these.
\<close>

definition objectPrototypeKeys :: "string list" where
  "objectPrototypeKeys =
     [''constructor'', ''__proto__'', ''hasOwnProperty'', ''isPrototypeOf'',
      ''propertyIsEnumerable'', ''toLocaleString'', ''toString'', ''valueOf'',
      ''__defineGetter__'', ''__defineSetter__'', ''__lookupGetter__'',
      ''__lookupSetter__'']"

text \<open>\<^verbatim>\<open>ToBoolean\<close>, as the operator \<^verbatim>\<open>||\<close> applies it.\<close>

fun truthy :: "jsval \<Rightarrow> bool" where
  "truthy JUndefined = False"
| "truthy JNull = False"
| "truthy (JBool b) = b"
| "truthy (JNum n) = (n \<noteq> 0)"
| "truthy (JStr s) = (s \<noteq> [])"
| "truthy (JArr xs) = True"
| "truthy (JObj kvs) = True"
| "truthy (JBuiltin b) = True"

text \<open>The decimal digits of an array index, as a property key.\<close>

fun decimal :: "nat \<Rightarrow> string" where
  "decimal n =
     (if n < 10 then [''0123456789'' ! n]
      else decimal (n div 10) @ [''0123456789'' ! (n mod 10)])"

declare decimal.simps [simp del]

text \<open>
  The own enumerable properties, which is what a spread \<^verbatim>\<open>...v\<close> copies: the properties
  of an object, the indices of an array or string, nothing for any other value.
\<close>

fun ownEntries :: "jsval \<Rightarrow> (string \<times> jsval) list" where
  "ownEntries (JObj kvs) = kvs"
| "ownEntries (JArr xs) = zip (map decimal [0..<length xs]) xs"
| "ownEntries (JStr s) = zip (map decimal [0..<length s]) (map (\<lambda>c. JStr [c]) s)"
| "ownEntries v = []"

definition ownProperty :: "jsval \<Rightarrow> string \<Rightarrow> jsval option" where
  "ownProperty v k = map_of (rev (ownEntries v)) k"

text \<open>
  What a read finds when there is no own property. Only the prototype of plain objects
  is modelled; the functions below read the fixed names \<^verbatim>\<open>brightness\<close>, \<^verbatim>\<open>color\<close>,
  \<^verbatim>\<open>contrast\<close>, \<^verbatim>\<open>sharpening\<close>, \<^verbatim>\<open>cropping\<close>, \<^verbatim>\<open>output\<close> and
  \<^verbatim>\<open>tightCropDetection\<close>, which no built-in prototype defines, and a caller-chosen
  name only on the plain object \<^verbatim>\<open>presets\<close>.
\<close>

fun inherited :: "jsval \<Rightarrow> string \<Rightarrow> jsval" where
  "inherited (JObj kvs) k = (if k \<in> set objectPrototypeKeys then JBuiltin k else JUndefined)"
| "inherited v k = JUndefined"

definition readProp :: "jsval \<Rightarrow> string \<Rightarrow> jsval" where
  "readProp v k = (case ownProperty v k of Some x \<Rightarrow> x | None \<Rightarrow> inherited v k)"

text \<open>\<^verbatim>\<open>v.k\<close> and \<^verbatim>\<open>v[k]\<close>: a TypeError on \<^verbatim>\<open>undefined\<close> and \<^verbatim>\<open>null\<close>.\<close>

fun getProp :: "jsval \<Rightarrow> string \<Rightarrow> error + jsval" where
  "getProp JUndefined k = Inl TypeError"
| "getProp JNull k = Inl TypeError"
| "getProp v k = Inr (readProp v k)"

text \<open>\<^verbatim>\<open>v?.k\<close>\<close>

fun optGetProp :: "jsval \<Rightarrow> string \<Rightarrow> jsval" where
  "optGetProp JUndefined k = JUndefined"
| "optGetProp JNull k = JUndefined"
| "optGetProp v k = readProp v k"

definition bindE :: "error + 'a \<Rightarrow> ('a \<Rightarrow> error + 'b) \<Rightarrow> error + 'b" where
  "bindE m f = (case m of Inl e \<Rightarrow> Inl e | Inr x \<Rightarrow> f x)"

text \<open>
  An object literal \<^verbatim>\<open>{ ...a, k: v, ... }\<close> is a list of members, evaluated from left to
  right into a fresh object. Assigning an existing key keeps its position.
\<close>

datatype 'v member = Spread 'v | Prop string 'v

definition assign :: "(string \<times> 'v) list \<Rightarrow> (string \<times> 'v) list \<Rightarrow> (string \<times> 'v) list" where
  "assign target src = fold (\<lambda>(k, v). AList.update k v) src target"

text \<open>\<open>own\<close> gives the own enumerable properties of a spread value.\<close>

fun defineMember ::
  "('v \<Rightarrow> (string \<times> 'v) list) \<Rightarrow> 'v member \<Rightarrow> (string \<times> 'v) list \<Rightarrow> (string \<times> 'v) list" where
  "defineMember own (Spread v) acc = assign acc (own v)"
| "defineMember own (Prop k v) acc = AList.update k v acc"

definition objLit :: "jsval member list \<Rightarrow> jsval" where
  "objLit ms = JObj (fold (defineMember ownEntries) ms [])"

section \<open>config.js: the presets\<close>

text \<open>
  \<^verbatim>\<open>processingConfig\<close>; its groups are named so that the presets below can spread
  \<^verbatim>\<open>processingConfig.brightness\<close> and the like.
\<close>

definition processingConfig_brightness :: jsval where
  "processingConfig_brightness = JObj
     [(''base'', JNum 1.2),
      (''darkImages'', JNum 1.16),
      (''mediumDarkImages'', JNum 1.12),
      (''brightImages'', JNum 1.05),
      (''darkThreshold'', JNum 100),
      (''mediumThreshold'', JNum 140),
      (''brightThreshold'', JNum 180),
      (''final'', JNum 1.01)]"

definition processingConfig_color :: jsval where
  "processingConfig_color = JObj
     [(''saturation'', JNum 0.85),
      (''finalSaturation'', JNum 1.04),
      (''hue'', JNum (- 8))]"

definition processingConfig_contrast :: jsval where
  "processingConfig_contrast = JObj
     [(''gamma'', JNum 1.0),
      (''linearMultiplier'', JNum 1.07),
      (''linearOffset'', JNum 1.5)]"

definition processingConfig_sharpening :: jsval where
  "processingConfig_sharpening = JObj
     [(''sigma'', JNum 0.9),
      (''flat'', JNum 1.0),
      (''jagged'', JNum 2.0)]"

definition processingConfig_tightCropDetection :: jsval where
  "processingConfig_tightCropDetection = JObj
     [(''enabled'', JBool True),
      (''faceToImageRatioThreshold'', JNum 0.03),
      (''faceEdgeDistanceThreshold'', JNum 0.20),
      (''looseCropSize'', JNum 0.95),
      (''skipCropSize'', JNum 1.0)]"

definition processingConfig_cropping :: jsval where
  "processingConfig_cropping = JObj
     [(''faceDetectedSize'', JNum 0.65),
      (''fallbackSize'', JNum 0.8),
      (''tightCropDetection'', processingConfig_tightCropDetection),
      (''faceVerticalOffset'', JNum 0.1),
      (''landscapeThreshold'', JNum 1.2),
      (''fallbackLandscapeTop'', JNum 0.25),
      (''fallbackPortraitTop'', JNum 0.2)]"

definition processingConfig_output :: jsval where
  "processingConfig_output = JObj
     [(''quality'', JNum 95),
      (''compressionLevel'', JNum 6),
      (''size'', JNum 1024)]"

definition processingConfig :: jsval where
  "processingConfig = JObj
     [(''brightness'', processingConfig_brightness),
      (''color'', processingConfig_color),
      (''contrast'', processingConfig_contrast),
      (''sharpening'', processingConfig_sharpening),
      (''cropping'', processingConfig_cropping),
      (''output'', processingConfig_output)]"

text \<open>\<^verbatim>\<open>presets.brighten\<close>, \<^verbatim>\<open>subtle\<close>, \<^verbatim>\<open>vibrant\<close>, \<^verbatim>\<open>natural\<close>, spreads included.\<close>

definition preset_brighten :: jsval where
  "preset_brighten = objLit
     [Spread processingConfig,
      Prop ''brightness'' (objLit
        [Spread processingConfig_brightness,
         Prop ''base'' (JNum 1.20),
         Prop ''darkImages'' (JNum 1.25),
         Prop ''mediumDarkImages'' (JNum 1.18),
         Prop ''final'' (JNum 1.05)]),
      Prop ''contrast'' (objLit
        [Spread processingConfig_contrast,
         Prop ''gamma'' (JNum 1.25),
         Prop ''linearMultiplier'' (JNum 1.15)])]"

definition preset_subtle :: jsval where
  "preset_subtle = objLit
     [Spread processingConfig,
      Prop ''brightness'' (objLit
        [Spread processingConfig_brightness,
         Prop ''base'' (JNum 1.05),
         Prop ''darkImages'' (JNum 1.08),
         Prop ''mediumDarkImages'' (JNum 1.06),
         Prop ''final'' (JNum 1.0)]),
      Prop ''color'' (objLit
        [Spread processingConfig_color,
         Prop ''saturation'' (JNum 1.05),
         Prop ''finalSaturation'' (JNum 1.02)])]"

definition preset_vibrant :: jsval where
  "preset_vibrant = objLit
     [Spread processingConfig,
      Prop ''brightness'' (objLit
        [Spread processingConfig_brightness,
         Prop ''base'' (JNum 1.15)]),
      Prop ''color'' (objLit
        [Spread processingConfig_color,
         Prop ''saturation'' (JNum 1.20),
         Prop ''finalSaturation'' (JNum 1.08)]),
      Prop ''contrast'' (objLit
        [Spread processingConfig_contrast,
         Prop ''gamma'' (JNum 1.30),
         Prop ''linearMultiplier'' (JNum 1.12)]),
      Prop ''sharpening'' (objLit
        [Spread processingConfig_sharpening,
         Prop ''sigma'' (JNum 1.5),
         Prop ''jagged'' (JNum 2.5)])]"

definition preset_natural :: jsval where
  "preset_natural = objLit
     [Spread processingConfig,
      Prop ''brightness'' (objLit
        [Spread processingConfig_brightness,
         Prop ''base'' (JNum 1.08),
         Prop ''final'' (JNum 1.0)]),
      Prop ''color'' (objLit
        [Spread processingConfig_color,
         Prop ''saturation'' (JNum 1.08),
         Prop ''finalSaturation'' (JNum 1.02)]),
      Prop ''contrast'' (objLit
        [Spread processingConfig_contrast,
         Prop ''gamma'' (JNum 1.10),
         Prop ''linearMultiplier'' (JNum 1.05)]),
      Prop ''sharpening'' (objLit
        [Spread processingConfig_sharpening,
         Prop ''sigma'' (JNum 0.8),
         Prop ''jagged'' (JNum 1.5)])]"

definition presets :: jsval where
  "presets = JObj
     [(''default'', processingConfig),
      (''brighten'', preset_brighten),
      (''subtle'', preset_subtle),
      (''vibrant'', preset_vibrant),
      (''natural'', preset_natural)]"

section \<open>config.js: getConfig and mergeConfig\<close>

text \<open>\<^verbatim>\<open>a || b\<close>\<close>

definition orElse :: "jsval \<Rightarrow> jsval \<Rightarrow> jsval" where
  "orElse a b = (if truthy a then a else b)"

text \<open>
  \<^verbatim>\<open>getConfig: (presetName = 'default') => presets[presetName] || presets.default\<close>.
  The argument is \<open>None\<close> when the caller passes none (or \<^verbatim>\<open>undefined\<close>). Reading a
  property of the object \<^verbatim>\<open>presets\<close> cannot throw.
\<close>

definition getConfig :: "string option \<Rightarrow> jsval" where
  "getConfig presetNameArg =
     (let presetName = (case presetNameArg of None \<Rightarrow> ''default'' | Some n \<Rightarrow> n)
      in orElse (readProp presets presetName) (readProp presets ''default''))"

text \<open>
  The preset names for which \<^verbatim>\<open>presets[name]\<close> finds a member of
  \<^verbatim>\<open>Object.prototype\<close> instead of a preset or nothing.
\<close>

definition inheritedName :: "string option \<Rightarrow> bool" where
  "inheritedName presetNameArg =
     (case presetNameArg of None \<Rightarrow> False | Some n \<Rightarrow> n \<in> set objectPrototypeKeys)"

text \<open>One line \<^verbatim>\<open>g: { ...base.g, ...customSettings.g }\<close> of \<^verbatim>\<open>mergeConfig\<close>.\<close>

definition mergeGroup :: "jsval \<Rightarrow> jsval \<Rightarrow> string \<Rightarrow> error + jsval" where
  "mergeGroup base customSettings g =
     bindE (getProp base g) (\<lambda>b.
     bindE (getProp customSettings g) (\<lambda>c.
     Inr (objLit [Spread b, Spread c])))"

text \<open>
  The body of \<^verbatim>\<open>mergeConfig\<close>, with both parameters bound. The reads are in the
  order of the source; every one of them can only raise the same TypeError.
\<close>

definition mergeConfigBody :: "string \<Rightarrow> jsval \<Rightarrow> error + jsval" where
  "mergeConfigBody basePreset customSettings =
     (let base = orElse (readProp presets basePreset) (readProp presets ''default'')
      in bindE (mergeGroup base customSettings ''brightness'') (\<lambda>brightness.
         bindE (mergeGroup base customSettings ''color'') (\<lambda>color.
         bindE (mergeGroup base customSettings ''contrast'') (\<lambda>contrast.
         bindE (mergeGroup base customSettings ''sharpening'') (\<lambda>sharpening.
         bindE (getProp base ''cropping'') (\<lambda>baseCropping.
         bindE (getProp customSettings ''cropping'') (\<lambda>customCropping.
         bindE (getProp baseCropping ''tightCropDetection'') (\<lambda>baseTight.
         let customTight = optGetProp customCropping ''tightCropDetection''
         in bindE (mergeGroup base customSettings ''output'') (\<lambda>output.
            Inr (objLit
              [Spread base,
               Spread customSettings,
               Prop ''brightness'' brightness,
               Prop ''color'' color,
               Prop ''contrast'' contrast,
               Prop ''sharpening'' sharpening,
               Prop ''cropping'' (objLit
                 [Spread baseCropping,
                  Spread customCropping,
                  Prop ''tightCropDetection'' (objLit [Spread baseTight, Spread customTight])]),
               Prop ''output'' output]))))))))))"

text \<open>
  \<^verbatim>\<open>mergeConfig: (basePreset = 'default', customSettings = {}) => { ... }\<close>. A default
  parameter replaces \<^verbatim>\<open>undefined\<close> only, so \<^verbatim>\<open>null\<close> reaches the body.
\<close>

definition mergeConfig :: "string option \<Rightarrow> jsval \<Rightarrow> error + jsval" where
  "mergeConfig basePresetArg customSettingsArg =
     mergeConfigBody
       (case basePresetArg of None \<Rightarrow> ''default'' | Some n \<Rightarrow> n)
       (if customSettingsArg = JUndefined then JObj [] else customSettingsArg)"

section \<open>Reading a resolved config\<close>

text \<open>\<^verbatim>\<open>v.k1.k2...\<close>\<close>

fun getPath :: "jsval \<Rightarrow> string list \<Rightarrow> error + jsval" where
  "getPath v [] = Inr v"
| "getPath v (k # ks) = bindE (getProp v k) (\<lambda>x. getPath x ks)"

text \<open>A field of the config that \<^verbatim>\<open>mergeConfig\<close> returns, and the same field of the preset.\<close>

definition resolvedField :: "string option \<Rightarrow> jsval \<Rightarrow> string list \<Rightarrow> error + jsval" where
  "resolvedField basePreset customSettings path =
     bindE (mergeConfig basePreset customSettings) (\<lambda>config. getPath config path)"

definition presetField :: "string option \<Rightarrow> string list \<Rightarrow> error + jsval" where
  "presetField presetName path =
     getPath (getConfig presetName) path"

text \<open>The six groups that \<^verbatim>\<open>mergeConfig\<close> rebuilds, and the five stored presets.\<close>

definition groupNames :: "string list" where
  "groupNames = [''brightness'', ''color'', ''contrast'', ''sharpening'', ''cropping'', ''output'']"

definition published :: "jsval set" where
  "published = {processingConfig, preset_brighten, preset_subtle, preset_vibrant, preset_natural}"


section \<open>The same functions on a store\<close>

text \<open>
  Whether \<^verbatim>\<open>mergeConfig\<close> changes the preset table cannot be read off a model in which
  the table is a constant. Here objects live in a store: an address is an index into the
  list of objects allocated so far, a value is a primitive or a reference, and an object
  literal allocates a new cell. Assignments to properties of existing objects would be
  updates of existing cells; \<^verbatim>\<open>getConfig\<close> and \<^verbatim>\<open>mergeConfig\<close> contain none, so the
  model has none.
\<close>

datatype hval =
    HUndefined
  | HNull
  | HBool bool
  | HNum rat
  | HStr string
  | HRef nat
  | HBuiltin string

datatype hobj = HObject "(string \<times> hval) list" | HArray "hval list"

type_synonym heap = "hobj list"

fun hTruthy :: "hval \<Rightarrow> bool" where
  "hTruthy HUndefined = False"
| "hTruthy HNull = False"
| "hTruthy (HBool b) = b"
| "hTruthy (HNum n) = (n \<noteq> 0)"
| "hTruthy (HStr s) = (s \<noteq> [])"
| "hTruthy (HRef a) = True"
| "hTruthy (HBuiltin b) = True"

definition hOrElse :: "hval \<Rightarrow> hval \<Rightarrow> hval" where
  "hOrElse a b = (if hTruthy a then a else b)"

text \<open>
  Own enumerable properties, inherited members and reads, as for \<open>jsval\<close>. A reference
  outside the store does not occur in a store built by allocation; it reads as an object
  without properties.
\<close>

fun hOwnEntries :: "heap \<Rightarrow> hval \<Rightarrow> (string \<times> hval) list" where
  "hOwnEntries h (HRef a) =
     (if a < length h
      then (case h ! a of
              HObject kvs \<Rightarrow> kvs
            | HArray xs \<Rightarrow> zip (map decimal [0..<length xs]) xs)
      else [])"
| "hOwnEntries h (HStr s) = zip (map decimal [0..<length s]) (map (\<lambda>c. HStr [c]) s)"
| "hOwnEntries h v = []"

fun hInherited :: "heap \<Rightarrow> hval \<Rightarrow> string \<Rightarrow> hval" where
  "hInherited h (HRef a) k =
     (if a < length h
      then (case h ! a of
              HObject kvs \<Rightarrow> if k \<in> set objectPrototypeKeys then HBuiltin k else HUndefined
            | HArray xs \<Rightarrow> HUndefined)
      else HUndefined)"
| "hInherited h v k = HUndefined"

definition hReadProp :: "heap \<Rightarrow> hval \<Rightarrow> string \<Rightarrow> hval" where
  "hReadProp h v k =
     (case map_of (rev (hOwnEntries h v)) k of Some x \<Rightarrow> x | None \<Rightarrow> hInherited h v k)"

fun hGetProp :: "heap \<Rightarrow> hval \<Rightarrow> string \<Rightarrow> error + hval" where
  "hGetProp h HUndefined k = Inl TypeError"
| "hGetProp h HNull k = Inl TypeError"
| "hGetProp h v k = Inr (hReadProp h v k)"

fun hOptGetProp :: "heap \<Rightarrow> hval \<Rightarrow> string \<Rightarrow> hval" where
  "hOptGetProp h HUndefined k = HUndefined"
| "hOptGetProp h HNull k = HUndefined"
| "hOptGetProp h v k = hReadProp h v k"

text \<open>
  A computation returns a value or an error, and the store it leaves. \<open>newObject\<close> is an
  object literal: it evaluates the members against the current store and appends the
  new object.
\<close>

definition bindH ::
  "(error + 'a) \<times> heap \<Rightarrow> ('a \<Rightarrow> heap \<Rightarrow> (error + 'b) \<times> heap) \<Rightarrow> (error + 'b) \<times> heap" where
  "bindH m f = (case m of (Inl e, h) \<Rightarrow> (Inl e, h) | (Inr x, h) \<Rightarrow> f x h)"

definition hGet :: "hval \<Rightarrow> string \<Rightarrow> heap \<Rightarrow> (error + hval) \<times> heap" where
  "hGet v k h = (hGetProp h v k, h)"

definition newObject :: "hval member list \<Rightarrow> heap \<Rightarrow> (error + hval) \<times> heap" where
  "newObject ms h =
     (Inr (HRef (length h)), h @ [HObject (fold (defineMember (hOwnEntries h)) ms [])])"

text \<open>
  config.js when the module is loaded into the empty store: the object literals of
  \<^verbatim>\<open>processingConfig\<close> and \<^verbatim>\<open>presets\<close>, each allocated once. A literal refers to an
  earlier one by its address, which is its position in this list. The presets share the
  groups of \<^verbatim>\<open>processingConfig\<close> that they do not override: a spread copies references.
\<close>

definition moduleLiterals :: "hval member list list" where
  "moduleLiterals =
    [
     \<comment> \<open>0: processingConfig.brightness\<close>
     [Prop ''base'' (HNum 1.2), Prop ''darkImages'' (HNum 1.16),
      Prop ''mediumDarkImages'' (HNum 1.12), Prop ''brightImages'' (HNum 1.05),
      Prop ''darkThreshold'' (HNum 100), Prop ''mediumThreshold'' (HNum 140),
      Prop ''brightThreshold'' (HNum 180), Prop ''final'' (HNum 1.01)],
     \<comment> \<open>1: processingConfig.color\<close>
     [Prop ''saturation'' (HNum 0.85), Prop ''finalSaturation'' (HNum 1.04),
      Prop ''hue'' (HNum (- 8))],
     \<comment> \<open>2: processingConfig.contrast\<close>
     [Prop ''gamma'' (HNum 1.0), Prop ''linearMultiplier'' (HNum 1.07),
      Prop ''linearOffset'' (HNum 1.5)],
     \<comment> \<open>3: processingConfig.sharpening\<close>
     [Prop ''sigma'' (HNum 0.9), Prop ''flat'' (HNum 1.0), Prop ''jagged'' (HNum 2.0)],
     \<comment> \<open>4: processingConfig.cropping.tightCropDetection\<close>
     [Prop ''enabled'' (HBool True), Prop ''faceToImageRatioThreshold'' (HNum 0.03),
      Prop ''faceEdgeDistanceThreshold'' (HNum 0.20), Prop ''looseCropSize'' (HNum 0.95),
      Prop ''skipCropSize'' (HNum 1.0)],
     \<comment> \<open>5: processingConfig.cropping\<close>
     [Prop ''faceDetectedSize'' (HNum 0.65), Prop ''fallbackSize'' (HNum 0.8),
      Prop ''tightCropDetection'' (HRef 4), Prop ''faceVerticalOffset'' (HNum 0.1),
      Prop ''landscapeThreshold'' (HNum 1.2), Prop ''fallbackLandscapeTop'' (HNum 0.25),
      Prop ''fallbackPortraitTop'' (HNum 0.2)],
     \<comment> \<open>6: processingConfig.output\<close>
     [Prop ''quality'' (HNum 95), Prop ''compressionLevel'' (HNum 6),
      Prop ''size'' (HNum 1024)],
     \<comment> \<open>7: processingConfig\<close>
     [Prop ''brightness'' (HRef 0), Prop ''color'' (HRef 1), Prop ''contrast'' (HRef 2),
      Prop ''sharpening'' (HRef 3), Prop ''cropping'' (HRef 5), Prop ''output'' (HRef 6)],
     \<comment> \<open>8: presets.brighten.brightness\<close>
     [Spread (HRef 0), Prop ''base'' (HNum 1.20), Prop ''darkImages'' (HNum 1.25),
      Prop ''mediumDarkImages'' (HNum 1.18), Prop ''final'' (HNum 1.05)],
     \<comment> \<open>9: presets.brighten.contrast\<close>
     [Spread (HRef 2), Prop ''gamma'' (HNum 1.25), Prop ''linearMultiplier'' (HNum 1.15)],
     \<comment> \<open>10: presets.brighten\<close>
     [Spread (HRef 7), Prop ''brightness'' (HRef 8), Prop ''contrast'' (HRef 9)],
     \<comment> \<open>11: presets.subtle.brightness\<close>
     [Spread (HRef 0), Prop ''base'' (HNum 1.05), Prop ''darkImages'' (HNum 1.08),
      Prop ''mediumDarkImages'' (HNum 1.06), Prop ''final'' (HNum 1.0)],
     \<comment> \<open>12: presets.subtle.color\<close>
     [Spread (HRef 1), Prop ''saturation'' (HNum 1.05), Prop ''finalSaturation'' (HNum 1.02)],
     \<comment> \<open>13: presets.subtle\<close>
     [Spread (HRef 7), Prop ''brightness'' (HRef 11), Prop ''color'' (HRef 12)],
     \<comment> \<open>14: presets.vibrant.brightness\<close>
     [Spread (HRef 0), Prop ''base'' (HNum 1.15)],
     \<comment> \<open>15: presets.vibrant.color\<close>
     [Spread (HRef 1), Prop ''saturation'' (HNum 1.20), Prop ''finalSaturation'' (HNum 1.08)],
     \<comment> \<open>16: presets.vibrant.contrast\<close>
     [Spread (HRef 2), Prop ''gamma'' (HNum 1.30), Prop ''linearMultiplier'' (HNum 1.12)],
     \<comment> \<open>17: presets.vibrant.sharpening\<close>
     [Spread (HRef 3), Prop ''sigma'' (HNum 1.5), Prop ''jagged'' (HNum 2.5)],
     \<comment> \<open>18: presets.vibrant\<close>
     [Spread (HRef 7), Prop ''brightness'' (HRef 14), Prop ''color'' (HRef 15),
      Prop ''contrast'' (HRef 16), Prop ''sharpening'' (HRef 17)],
     \<comment> \<open>19: presets.natural.brightness\<close>
     [Spread (HRef 0), Prop ''base'' (HNum 1.08), Prop ''final'' (HNum 1.0)],
     \<comment> \<open>20: presets.natural.color\<close>
     [Spread (HRef 1), Prop ''saturation'' (HNum 1.08), Prop ''finalSaturation'' (HNum 1.02)],
     \<comment> \<open>21: presets.natural.contrast\<close>
     [Spread (HRef 2), Prop ''gamma'' (HNum 1.10), Prop ''linearMultiplier'' (HNum 1.05)],
     \<comment> \<open>22: presets.natural.sharpening\<close>
     [Spread (HRef 3), Prop ''sigma'' (HNum 0.8), Prop ''jagged'' (HNum 1.5)],
     \<comment> \<open>23: presets.natural\<close>
     [Spread (HRef 7), Prop ''brightness'' (HRef 19), Prop ''color'' (HRef 20),
      Prop ''contrast'' (HRef 21), Prop ''sharpening'' (HRef 22)],
     \<comment> \<open>24: presets\<close>
     [Prop ''default'' (HRef 7), Prop ''brighten'' (HRef 10), Prop ''subtle'' (HRef 13),
      Prop ''vibrant'' (HRef 18), Prop ''natural'' (HRef 23)]
    ]"

definition moduleHeap :: heap where
  "moduleHeap = fold (\<lambda>ms h. snd (newObject ms h)) moduleLiterals []"

text \<open>The reference that the module holds in \<^verbatim>\<open>presets\<close>: the last literal.\<close>

definition presetsRef :: hval where
  "presetsRef = HRef 24"

text \<open>
  \<^verbatim>\<open>mergeConfig\<close> on the store, with \<open>presetsAt\<close> the reference the module holds in
  \<^verbatim>\<open>presets\<close>. Every object literal of the source is one allocation: the default
  \<^verbatim>\<open>{}\<close> of \<^verbatim>\<open>customSettings\<close>, the four groups before \<^verbatim>\<open>cropping\<close>, the inner
  \<^verbatim>\<open>tightCropDetection\<close> and \<^verbatim>\<open>cropping\<close> literals, \<^verbatim>\<open>output\<close>, and the object
  that is returned. The order of the addresses has no meaning.
\<close>

definition mergeGroupH :: "hval \<Rightarrow> hval \<Rightarrow> string \<Rightarrow> heap \<Rightarrow> (error + hval) \<times> heap" where
  "mergeGroupH base customSettings g h =
     bindH (hGet base g h) (\<lambda>b h.
     bindH (hGet customSettings g h) (\<lambda>c h.
     newObject [Spread b, Spread c] h))"

definition mergeConfigBodyH ::
  "hval \<Rightarrow> string \<Rightarrow> hval \<Rightarrow> heap \<Rightarrow> (error + hval) \<times> heap" where
  "mergeConfigBodyH presetsAt basePreset customSettings h0 =
     (let base = hOrElse (hReadProp h0 presetsAt basePreset) (hReadProp h0 presetsAt ''default'')
      in bindH (mergeGroupH base customSettings ''brightness'' h0) (\<lambda>brightness h.
         bindH (mergeGroupH base customSettings ''color'' h) (\<lambda>color h.
         bindH (mergeGroupH base customSettings ''contrast'' h) (\<lambda>contrast h.
         bindH (mergeGroupH base customSettings ''sharpening'' h) (\<lambda>sharpening h.
         bindH (hGet base ''cropping'' h) (\<lambda>baseCropping h.
         bindH (hGet customSettings ''cropping'' h) (\<lambda>customCropping h.
         bindH (hGet baseCropping ''tightCropDetection'' h) (\<lambda>baseTight h.
         let customTight = hOptGetProp h customCropping ''tightCropDetection''
         in bindH (newObject [Spread baseTight, Spread customTight] h) (\<lambda>tight h.
            bindH (newObject
              [Spread baseCropping, Spread customCropping,
               Prop ''tightCropDetection'' tight] h) (\<lambda>cropping h.
            bindH (mergeGroupH base customSettings ''output'' h) (\<lambda>output h.
            newObject
              [Spread base,
               Spread customSettings,
               Prop ''brightness'' brightness,
               Prop ''color'' color,
               Prop ''contrast'' contrast,
               Prop ''sharpening'' sharpening,
               Prop ''cropping'' cropping,
               Prop ''output'' output] h)))))))))))"

definition mergeConfigH ::
  "hval \<Rightarrow> string option \<Rightarrow> hval \<Rightarrow> heap \<Rightarrow> (error + hval) \<times> heap" where
  "mergeConfigH presetsAt basePresetArg customSettingsArg h0 =
     bindH (if customSettingsArg = HUndefined then newObject [] h0
            else (Inr customSettingsArg, h0))
       (mergeConfigBodyH presetsAt
          (case basePresetArg of None \<Rightarrow> ''default'' | Some n \<Rightarrow> n))"

section \<open>What a stored value stands for\<close>

text \<open>
  \<open>rep h v j\<close>: in the store \<open>h\<close>, the value \<open>v\<close> and everything reachable from it spell
  out the structural value \<open>j\<close>. \<open>reify\<close> computes \<open>j\<close>, following references to a
  depth of at most \<open>n\<close>.
\<close>

inductive rep :: "heap \<Rightarrow> hval \<Rightarrow> jsval \<Rightarrow> bool" for h :: heap where
  rep_undefined: "rep h HUndefined JUndefined"
| rep_null: "rep h HNull JNull"
| rep_bool: "rep h (HBool b) (JBool b)"
| rep_num: "rep h (HNum n) (JNum n)"
| rep_str: "rep h (HStr s) (JStr s)"
| rep_builtin: "rep h (HBuiltin b) (JBuiltin b)"
| rep_object:
    "a < length h \<Longrightarrow> h ! a = HObject kvs \<Longrightarrow>
     list_all2 (\<lambda>p q. fst p = fst q \<and> rep h (snd p) (snd q)) kvs kvs' \<Longrightarrow>
     rep h (HRef a) (JObj kvs')"
| rep_array:
    "a < length h \<Longrightarrow> h ! a = HArray xs \<Longrightarrow> list_all2 (rep h) xs js \<Longrightarrow>
     rep h (HRef a) (JArr js)"

fun reify :: "nat \<Rightarrow> heap \<Rightarrow> hval \<Rightarrow> jsval option" where
  "reify n h HUndefined = Some JUndefined"
| "reify n h HNull = Some JNull"
| "reify n h (HBool b) = Some (JBool b)"
| "reify n h (HNum x) = Some (JNum x)"
| "reify n h (HStr s) = Some (JStr s)"
| "reify n h (HBuiltin b) = Some (JBuiltin b)"
| "reify 0 h (HRef a) = None"
| "reify (Suc n) h (HRef a) =
     (if a < length h
      then (case h ! a of
              HObject kvs \<Rightarrow>
                map_option JObj
                  (those (map (\<lambda>p. map_option (Pair (fst p)) (reify n h (snd p))) kvs))
            | HArray xs \<Rightarrow> map_option JArr (those (map (reify n h) xs)))
      else None)"

text \<open>
  A computation on the store simulates a structural result: it only extends the store,
  fails exactly when the structural function fails, and otherwise returns a value that
  stands for the structural result in the new store.
\<close>

definition sim :: "heap \<Rightarrow> (error + hval) \<times> heap \<Rightarrow> error + jsval \<Rightarrow> bool" where
  "sim h m jm \<longleftrightarrow> prefix h (snd m) \<and> rel_sum (=) (rep (snd m)) (fst m) jm"

abbreviation entriesRel :: "heap \<Rightarrow> (string \<times> hval) list \<Rightarrow> (string \<times> jsval) list \<Rightarrow> bool" where
  "entriesRel h \<equiv> list_all2 (\<lambda>p q. fst p = fst q \<and> rep h (snd p) (snd q))"

section \<open>Face selection and crop planning (image-processor.js, smartCropImage)\<close>

text \<open>A detection's \<^verbatim>\<open>box\<close>: position and size in pixels; \<^verbatim>\<open>box.area\<close> is width times height.\<close>

record FaceBox =
  box_x :: rat
  box_y :: rat
  box_width :: rat
  box_height :: rat

definition area :: "FaceBox \<Rightarrow> rat" where
  "area b = box_width b * box_height b"

text \<open>
  \<^verbatim>\<open>detections.reduce((prev, current) => (prev.box.area > current.box.area) ? prev : current)\<close>,
  guarded by \<^verbatim>\<open>detections.length > 0\<close>. A reduce without initial value starts from the
  first element and folds the rest from left to right.
\<close>

definition pickLarger :: "FaceBox \<Rightarrow> FaceBox \<Rightarrow> FaceBox" where
  "pickLarger prev current = (if area prev > area current then prev else current)"

fun largestFace :: "FaceBox list \<Rightarrow> FaceBox option" where
  "largestFace [] = None"
| "largestFace (d # ds) = Some (foldl pickLarger d ds)"

text \<open>\<^verbatim>\<open>faceCenter = { x: box.x + box.width / 2, y: box.y + box.height / 2 }\<close>\<close>

definition faceCenterOf :: "FaceBox \<Rightarrow> rat \<times> rat" where
  "faceCenterOf b = (box_x b + box_width b / 2, box_y b + box_height b / 2)"

text \<open>
  The detection part of \<^verbatim>\<open>smartCropImage\<close>: \<open>None\<close> as input stands for "models not
  loaded" or "detection threw" (both leave \<^verbatim>\<open>faceCenter\<close> at \<^verbatim>\<open>null\<close>), \<open>Some ds\<close> for
  the list the detector returned.
\<close>

definition detectFaceCenter :: "FaceBox list option \<Rightarrow> (rat \<times> rat) option" where
  "detectFaceCenter detections =
     (case detections of
        None \<Rightarrow> None
      | Some ds \<Rightarrow> map_option faceCenterOf (largestFace ds))"

text \<open>The \<^verbatim>\<open>cropping\<close> group of a resolved config, as the planner reads it.\<close>

record ThresholdConfig =
  enabled :: bool
  faceToImageRatioThreshold :: rat
  faceEdgeDistanceThreshold :: rat
  looseCropSize :: rat
  skipCropSize :: rat

record CroppingConfig =
  faceDetectedSize :: rat
  fallbackSize :: rat
  tightCropDetection :: ThresholdConfig
  faceVerticalOffset :: rat
  landscapeThreshold :: rat
  fallbackLandscapeTop :: rat
  fallbackPortraitTop :: rat

text \<open>The argument of \<^verbatim>\<open>image.extract\<close>.\<close>

record CropRegion =
  crop_left :: int
  crop_top :: int
  crop_width :: int
  crop_height :: int

text \<open>
  The planning part of \<^verbatim>\<open>smartCropImage\<close> (from "Determine crop parameters using config"
  to the \<^verbatim>\<open>extract\<close> call), statement by statement. \<open>width\<close> and \<open>height\<close> are the
  metadata's; the aspect ratio \<^verbatim>\<open>width / height\<close> is a rational division.
\<close>

definition smartCropRegion ::
  "int \<Rightarrow> int \<Rightarrow> CroppingConfig \<Rightarrow> (rat \<times> rat) option \<Rightarrow> CropRegion" where
  "smartCropRegion width height cropping faceCenter =
     (let squareSize =
            (case faceCenter of
               Some c \<Rightarrow> of_int (min width height) * faceDetectedSize cropping
             | None \<Rightarrow> of_int (min width height) * fallbackSize cropping);
          cropWidth = \<lfloor>squareSize\<rfloor>;
          cropHeight = \<lfloor>squareSize\<rfloor>;
          (left0, top0) =
            (case faceCenter of
               Some (cx, cy) \<Rightarrow>
                 (let l = \<lfloor>cx - of_int cropWidth / 2\<rfloor>;
                      t = \<lfloor>cy - of_int cropHeight / 2\<rfloor>;
                      t' = \<lfloor>of_int t + of_int cropHeight * faceVerticalOffset cropping\<rfloor>
                  in (l, t'))
             | None \<Rightarrow>
                 (let aspectRatio = (of_int width :: rat) / of_int height;
                      l = \<lfloor>(of_int (width - cropWidth) :: rat) / 2\<rfloor>;
                      t = (if aspectRatio > landscapeThreshold cropping
                           then \<lfloor>of_int height * fallbackLandscapeTop cropping\<rfloor>
                           else \<lfloor>of_int height * fallbackPortraitTop cropping\<rfloor>)
                  in (l, t)));
          left = max 0 (min left0 (width - cropWidth));
          top = max 0 (min top0 (height - cropHeight));
          actualCropWidth = min cropWidth (width - left);
          actualCropHeight = min cropHeight (height - top)
      in \<lparr>crop_left = left, crop_top = top,
          crop_width = actualCropWidth, crop_height = actualCropHeight\<rparr>)"

text \<open>The \<^verbatim>\<open>cropping\<close> group that every published preset carries (config.js).\<close>

definition defaultCropping :: CroppingConfig where
  "defaultCropping =
     \<lparr>faceDetectedSize = 65 / 100,
      fallbackSize = 8 / 10,
      tightCropDetection =
        \<lparr>enabled = True,
         faceToImageRatioThreshold = 3 / 100,
         faceEdgeDistanceThreshold = 20 / 100,
         looseCropSize = 95 / 100,
         skipCropSize = 1\<rparr>,
      faceVerticalOffset = 1 / 10,
      landscapeThreshold = 12 / 10,
      fallbackLandscapeTop = 25 / 100,
      fallbackPortraitTop = 2 / 10\<rparr>"

section \<open>Luminance buckets (image-processor.js, colorCorrectForAvatars)\<close>

record BrightnessConfig =
  base :: rat
  darkImages :: rat
  mediumDarkImages :: rat
  brightImages :: rat
  darkThreshold :: rat
  mediumThreshold :: rat
  brightThreshold :: rat
  final :: rat

text \<open>
  \<^verbatim>\<open>let brightnessAdjustment = config.brightness.base;\<close> followed by the
  \<^verbatim>\<open>if / else if / else if\<close> chain on \<^verbatim>\<open>avgLuminance\<close>.
\<close>

definition brightnessAdjustment :: "rat \<Rightarrow> BrightnessConfig \<Rightarrow> rat" where
  "brightnessAdjustment avgLuminance brightness =
     (if avgLuminance < darkThreshold brightness then darkImages brightness
      else if avgLuminance < mediumThreshold brightness then mediumDarkImages brightness
      else if avgLuminance > brightThreshold brightness then brightImages brightness
      else base brightness)"


text \<open>The \<^verbatim>\<open>brightness\<close> group of \<^verbatim>\<open>processingConfig\<close> (config.js).\<close>

definition defaultBrightness :: BrightnessConfig where
  "defaultBrightness =
     \<lparr>base = 12 / 10, darkImages = 116 / 100, mediumDarkImages = 112 / 100,
      brightImages = 105 / 100, darkThreshold = 100, mediumThreshold = 140,
      brightThreshold = 180, final = 101 / 100\<rparr>"

section \<open>The typed view of a resolved config\<close>

text \<open>
  \<^verbatim>\<open>smartCropImage\<close> and \<^verbatim>\<open>colorCorrectForAvatars\<close> read numbers out of the config
  object. The records above are that reading; it is defined when every field read is a
  number (for \<^verbatim>\<open>enabled\<close>, a boolean).
\<close>

definition numField :: "jsval \<Rightarrow> string \<Rightarrow> rat option" where
  "numField v k = (case getProp v k of Inr (JNum n) \<Rightarrow> Some n | _ \<Rightarrow> None)"

definition boolField :: "jsval \<Rightarrow> string \<Rightarrow> bool option" where
  "boolField v k = (case getProp v k of Inr (JBool b) \<Rightarrow> Some b | _ \<Rightarrow> None)"

definition thresholdOf :: "jsval \<Rightarrow> ThresholdConfig option" where
  "thresholdOf t =
     (case (boolField t ''enabled'', numField t ''faceToImageRatioThreshold'',
            numField t ''faceEdgeDistanceThreshold'', numField t ''looseCropSize'',
            numField t ''skipCropSize'') of
        (Some e, Some r, Some d, Some l, Some s) \<Rightarrow>
          Some \<lparr>enabled = e, faceToImageRatioThreshold = r, faceEdgeDistanceThreshold = d,
                looseCropSize = l, skipCropSize = s\<rparr>
      | _ \<Rightarrow> None)"

definition croppingOf :: "jsval \<Rightarrow> CroppingConfig option" where
  "croppingOf config =
     (case getProp config ''cropping'' of
        Inl e \<Rightarrow> None
      | Inr c \<Rightarrow>
         (case (numField c ''faceDetectedSize'', numField c ''fallbackSize'',
                (case getProp c ''tightCropDetection'' of Inl e \<Rightarrow> None | Inr t \<Rightarrow> thresholdOf t),
                numField c ''faceVerticalOffset'', numField c ''landscapeThreshold'',
                numField c ''fallbackLandscapeTop'', numField c ''fallbackPortraitTop'') of
            (Some fd, Some fb, Some t, Some vo, Some lt, Some fl, Some fp) \<Rightarrow>
              Some \<lparr>faceDetectedSize = fd, fallbackSize = fb, tightCropDetection = t,
                    faceVerticalOffset = vo, landscapeThreshold = lt,
                    fallbackLandscapeTop = fl, fallbackPortraitTop = fp\<rparr>
          | _ \<Rightarrow> None))"

definition brightnessOf :: "jsval \<Rightarrow> BrightnessConfig option" where
  "brightnessOf config =
     (case getProp config ''brightness'' of
        Inl e \<Rightarrow> None
      | Inr b \<Rightarrow>
         (case (numField b ''base'', numField b ''darkImages'', numField b ''mediumDarkImages'',
                numField b ''brightImages'', numField b ''darkThreshold'',
                numField b ''mediumThreshold'', numField b ''brightThreshold'',
                numField b ''final'') of
            (Some ba, Some da, Some md, Some br, Some dt, Some mt, Some bt, Some fi) \<Rightarrow>
              Some \<lparr>base = ba, darkImages = da, mediumDarkImages = md, brightImages = br,
                    darkThreshold = dt, mediumThreshold = mt, brightThreshold = bt,
                    final = fi\<rparr>
          | _ \<Rightarrow> None))"

section \<open>The tight-crop verdict\<close>

text \<open>
  Modelled from the spec: the Face Geometry Analyzer (section 4.2). No source file
  computes a tight-crop verdict; TIGHT-CROP-DETECTION.md and the comments of config.js
  describe it. \<open>faceRatio\<close> is the box area over the image area, the edge distances are
  the face center's coordinates divided by the image dimensions and their complements,
  and the image is tight when detection is enabled and the ratio is above its threshold
  or the smallest edge distance is below its threshold.
\<close>

definition faceRatio :: "FaceBox \<Rightarrow> int \<Rightarrow> int \<Rightarrow> rat" where
  "faceRatio b width height = area b / (of_int width * of_int height)"

definition minEdgeDistance :: "FaceBox \<Rightarrow> int \<Rightarrow> int \<Rightarrow> rat" where
  "minEdgeDistance b width height =
     (let (cx, cy) = faceCenterOf b;
          l = cx / of_int width;
          t = cy / of_int height
      in min (min l (1 - l)) (min t (1 - t)))"

definition isTight :: "ThresholdConfig \<Rightarrow> FaceBox \<Rightarrow> int \<Rightarrow> int \<Rightarrow> bool" where
  "isTight t b width height \<longleftrightarrow>
     enabled t \<and>
     (faceRatio b width height > faceToImageRatioThreshold t \<or>
      minEdgeDistance b width height < faceEdgeDistanceThreshold t)"

section \<open>Auxiliary: an object literal as a map\<close>

text \<open>The properties an object literal defines, member by member.\<close>

fun memberMap ::
  "('v \<Rightarrow> (string \<times> 'v) list) \<Rightarrow> 'v member \<Rightarrow> (string \<rightharpoonup> 'v) \<Rightarrow> (string \<rightharpoonup> 'v)" where
  "memberMap own (Spread v) f = f ++ map_of (rev (own v))"
| "memberMap own (Prop k v) f = f(k \<mapsto> v)"

section \<open>Object literals: lookups\<close>

lemma map_of_assign: "map_of (assign acc src) = map_of acc ++ map_of (rev src)"
  unfolding assign_def
proof (induction src arbitrary: acc)
  case Nil
  show ?case by simp
next
  case (Cons p ps)
  obtain k v where p: "p = (k, v)" by (cases p)
  have "map_of (fold (\<lambda>(k, v). AList.update k v) (p # ps) acc)
        = map_of (AList.update k v acc) ++ map_of (rev ps)"
    using Cons.IH [of "AList.update k v acc"] by (simp add: p)
  also have "\<dots> = map_of acc ++ map_of (rev (p # ps))"
    by (simp add: p update_conv' map_add_upd_left fun_eq_iff map_add_def split: option.splits)
  finally show ?case .
qed

lemma distinct_assign:
  "distinct (map fst acc) \<Longrightarrow> distinct (map fst (assign acc src))"
  unfolding assign_def
  by (induction src arbitrary: acc) (auto simp: distinct_update)

lemma map_of_fold_defineMember:
  "map_of (fold (defineMember own) ms acc) = fold (memberMap own) ms (map_of acc)"
proof (induction ms arbitrary: acc)
  case Nil
  show ?case by simp
next
  case (Cons m ms)
  show ?case
  proof (cases m)
    case (Spread v)
    then show ?thesis by (simp add: Cons.IH map_of_assign)
  next
    case (Prop k v)
    have "map_of (AList.update k v acc) = (map_of acc)(k \<mapsto> v)"
      by (rule update_conv')
    then show ?thesis
      by (simp only: Prop fold_simps defineMember.simps memberMap.simps Cons.IH)
  qed
qed

lemma distinct_fold_defineMember:
  "distinct (map fst acc) \<Longrightarrow> distinct (map fst (fold (defineMember own) ms acc))"
proof (induction ms arbitrary: acc)
  case Nil
  then show ?case by simp
next
  case (Cons m ms)
  then show ?case
    by (cases m) (simp_all add: distinct_assign distinct_update)
qed

lemma map_of_rev_distinct:
  "distinct (map fst xs) \<Longrightarrow> map_of (rev xs) = map_of xs"
  by (rule map_of_inject_set [THEN iffD2]) (simp_all add: rev_map [symmetric])

lemma ownProperty_objLit:
  "ownProperty (objLit ms) = fold (memberMap ownEntries) ms Map.empty"
proof -
  have "distinct (map fst (fold (defineMember ownEntries) ms []))"
    by (rule distinct_fold_defineMember) simp
  then show ?thesis
    by (simp add: ownProperty_def objLit_def map_of_rev_distinct map_of_fold_defineMember
        fun_eq_iff)
qed

lemma readProp_objLit:
  "readProp (objLit ms) k =
     (case fold (memberMap ownEntries) ms Map.empty k of
        Some x \<Rightarrow> x
      | None \<Rightarrow> if k \<in> set objectPrototypeKeys then JBuiltin k else JUndefined)"
proof -
  have inh: "inherited (objLit ms) k =
          (if k \<in> set objectPrototypeKeys then JBuiltin k else JUndefined)"
    by (simp add: objLit_def)
  show ?thesis
    unfolding readProp_def ownProperty_objLit inh by (rule refl)
qed

lemma getProp_objLit: "getProp (objLit ms) k = Inr (readProp (objLit ms) k)"
  by (simp add: objLit_def)

lemma getProp_defined:
  "v \<noteq> JUndefined \<Longrightarrow> v \<noteq> JNull \<Longrightarrow> getProp v k = Inr (readProp v k)"
  by (cases v) simp_all

lemma readProp_respread:
  "ownProperty ct k = None \<Longrightarrow>
   readProp (objLit [Spread (JObj kvs), Spread ct]) k = readProp (JObj kvs) k"
  unfolding readProp_objLit
  by (simp add: readProp_def ownProperty_def map_add_def split: option.splits)

lemma literal_fields:
  fixes b c x1 x2 x3 x4 x5 x6
  defines "lit \<equiv> objLit [Spread b, Spread c, Prop ''brightness'' x1, Prop ''color'' x2,
     Prop ''contrast'' x3, Prop ''sharpening'' x4, Prop ''cropping'' x5, Prop ''output'' x6]"
  shows "getProp lit ''brightness'' = Inr x1" "getProp lit ''color'' = Inr x2"
    "getProp lit ''contrast'' = Inr x3" "getProp lit ''sharpening'' = Inr x4"
    "getProp lit ''cropping'' = Inr x5" "getProp lit ''output'' = Inr x6"
  unfolding lit_def getProp_objLit readProp_objLit by simp_all

lemma cropping_literal_tight:
  "getProp (objLit [Spread b, Spread c, Prop ''tightCropDetection'' t]) ''tightCropDetection''
   = Inr t"
  unfolding getProp_objLit readProp_objLit by simp


section \<open>The stored presets\<close>

lemma published_objects:
  "\<exists>kvs. processingConfig = JObj kvs" "\<exists>kvs. preset_brighten = JObj kvs"
  "\<exists>kvs. preset_subtle = JObj kvs" "\<exists>kvs. preset_vibrant = JObj kvs"
  "\<exists>kvs. preset_natural = JObj kvs"
  by (simp_all add: processingConfig_def preset_brighten_def preset_subtle_def
      preset_vibrant_def preset_natural_def objLit_def)

lemma published_is_object:
  "preset \<in> published \<Longrightarrow> \<exists>kvs. preset = JObj kvs"
  using published_objects unfolding published_def by blast

lemma published_getProp:
  "preset \<in> published \<Longrightarrow> getProp preset g = Inr (readProp preset g)"
  using published_is_object [of preset] by auto

lemma readProp_presets:
  "readProp presets name =
     (if name = ''natural'' then preset_natural
      else if name = ''vibrant'' then preset_vibrant
      else if name = ''subtle'' then preset_subtle
      else if name = ''brighten'' then preset_brighten
      else if name = ''default'' then processingConfig
      else if name \<in> set objectPrototypeKeys then JBuiltin name
      else JUndefined)"
  by (simp add: readProp_def ownProperty_def presets_def)

lemma ownProperty_presets:
  "ownProperty presets name =
     (if name = ''natural'' then Some preset_natural
      else if name = ''vibrant'' then Some preset_vibrant
      else if name = ''subtle'' then Some preset_subtle
      else if name = ''brighten'' then Some preset_brighten
      else if name = ''default'' then Some processingConfig
      else None)"
  by (simp add: ownProperty_def presets_def)

lemma getConfig_published:
  assumes "\<not> inheritedName nameArg"
  shows "getConfig nameArg \<in> published"
proof -
  obtain name where name: "name = (case nameArg of None \<Rightarrow> ''default'' | Some n \<Rightarrow> n)"
    by simp
  have np: "name \<notin> set objectPrototypeKeys"
    using assms unfolding name inheritedName_def
    by (cases nameArg) (auto simp: objectPrototypeKeys_def)
  have cfg: "getConfig nameArg = orElse (readProp presets name) (readProp presets ''default'')"
    unfolding getConfig_def Let_def name [symmetric] by (rule refl)
  have "orElse (readProp presets name) (readProp presets ''default'') \<in> published"
    using np published_objects
    by (auto simp: readProp_presets orElse_def published_def)
  with cfg show ?thesis by simp
qed

lemma stored_presets:
  "getConfig (Some ''default'') = processingConfig"
  "getConfig (Some ''brighten'') = preset_brighten"
  "getConfig (Some ''subtle'') = preset_subtle"
  "getConfig (Some ''vibrant'') = preset_vibrant"
  "getConfig (Some ''natural'') = preset_natural"
  by code_simp+

lemma published_cropping:
  assumes "preset \<in> published"
  shows "readProp preset ''cropping'' = processingConfig_cropping"
proof -
  have "readProp processingConfig ''cropping'' = processingConfig_cropping" by code_simp
  moreover have "readProp preset_brighten ''cropping'' = processingConfig_cropping" by code_simp
  moreover have "readProp preset_subtle ''cropping'' = processingConfig_cropping" by code_simp
  moreover have "readProp preset_vibrant ''cropping'' = processingConfig_cropping" by code_simp
  moreover have "readProp preset_natural ''cropping'' = processingConfig_cropping" by code_simp
  ultimately show ?thesis
    using assms unfolding published_def by blast
qed

lemma cropping_tight:
  "getProp processingConfig_cropping ''tightCropDetection''
   = Inr processingConfig_tightCropDetection"
  by code_simp

lemma tight_is_object: "\<exists>kvs. processingConfig_tightCropDetection = JObj kvs"
  by (simp add: processingConfig_tightCropDetection_def)

lemma respread_group:
  assumes "preset \<in> published"
    and "g \<in> set [''brightness'', ''color'', ''contrast'', ''sharpening'', ''output'']"
  shows "objLit [Spread (readProp preset g), Spread JUndefined] = readProp preset g"
proof -
  have "\<forall>g\<in>set [''brightness'', ''color'', ''contrast'', ''sharpening'', ''output''].
          objLit [Spread (readProp processingConfig g), Spread JUndefined]
          = readProp processingConfig g"
    by code_simp
  moreover have "\<forall>g\<in>set [''brightness'', ''color'', ''contrast'', ''sharpening'', ''output''].
          objLit [Spread (readProp preset_brighten g), Spread JUndefined]
          = readProp preset_brighten g"
    by code_simp
  moreover have "\<forall>g\<in>set [''brightness'', ''color'', ''contrast'', ''sharpening'', ''output''].
          objLit [Spread (readProp preset_subtle g), Spread JUndefined]
          = readProp preset_subtle g"
    by code_simp
  moreover have "\<forall>g\<in>set [''brightness'', ''color'', ''contrast'', ''sharpening'', ''output''].
          objLit [Spread (readProp preset_vibrant g), Spread JUndefined]
          = readProp preset_vibrant g"
    by code_simp
  moreover have "\<forall>g\<in>set [''brightness'', ''color'', ''contrast'', ''sharpening'', ''output''].
          objLit [Spread (readProp preset_natural g), Spread JUndefined]
          = readProp preset_natural g"
    by code_simp
  ultimately show ?thesis
    using assms unfolding published_def by blast
qed

lemma respread_cropping:
  "objLit [Spread processingConfig_cropping, Spread JUndefined,
           Prop ''tightCropDetection''
             (objLit [Spread processingConfig_tightCropDetection, Spread JUndefined])]
   = processingConfig_cropping"
  by code_simp

section \<open>The overrides\<close>

lemma ownProperty_custom:
  "ownProperty (if cs = JUndefined then JObj [] else cs) k = ownProperty cs k"
  by (simp add: ownProperty_def)

lemma readProp_custom:
  "readProp (if cs = JUndefined then JObj [] else cs) k = readProp cs k"
  if "k \<notin> set objectPrototypeKeys"
  using that by (simp add: readProp_def ownProperty_def)

lemma readProp_absent:
  "ownProperty cs g = None \<Longrightarrow> g \<notin> set objectPrototypeKeys \<Longrightarrow>
   readProp (if cs = JUndefined then JObj [] else cs) g = JUndefined"
  by (cases cs) (simp_all add: readProp_def ownProperty_def)

lemma group_not_inherited: "g \<in> set groupNames \<Longrightarrow> g \<notin> set objectPrototypeKeys"
  by (auto simp: groupNames_def objectPrototypeKeys_def)

lemma mergeConfig_undefined_override:
  "mergeConfig nameArg JUndefined = mergeConfig nameArg (JObj [])"
  by (simp add: mergeConfig_def)

section \<open>What mergeConfig returns on a stored preset\<close>

lemma mergeConfig_shape:
  assumes pub: "getConfig nameArg \<in> published"
    and cs: "cs \<noteq> JNull" and cs': "cs' = (if cs = JUndefined then JObj [] else cs)"
  shows "mergeConfig nameArg cs = Inr (objLit
     [Spread (getConfig nameArg),
      Spread cs',
      Prop ''brightness'' (objLit
        [Spread (readProp (getConfig nameArg) ''brightness''), Spread (readProp cs' ''brightness'')]),
      Prop ''color'' (objLit
        [Spread (readProp (getConfig nameArg) ''color''), Spread (readProp cs' ''color'')]),
      Prop ''contrast'' (objLit
        [Spread (readProp (getConfig nameArg) ''contrast''), Spread (readProp cs' ''contrast'')]),
      Prop ''sharpening'' (objLit
        [Spread (readProp (getConfig nameArg) ''sharpening''), Spread (readProp cs' ''sharpening'')]),
      Prop ''cropping'' (objLit
        [Spread processingConfig_cropping,
         Spread (readProp cs' ''cropping''),
         Prop ''tightCropDetection'' (objLit
           [Spread processingConfig_tightCropDetection,
            Spread (optGetProp (readProp cs' ''cropping'') ''tightCropDetection'')])]),
      Prop ''output'' (objLit
        [Spread (readProp (getConfig nameArg) ''output''), Spread (readProp cs' ''output'')])])"
proof -
  have r: "getProp cs' g = Inr (readProp cs' g)" for g
    using cs unfolding cs' by (intro getProp_defined) auto
  have b: "orElse (readProp presets (case nameArg of None \<Rightarrow> ''default'' | Some n \<Rightarrow> n))
             (readProp presets ''default'') = getConfig nameArg"
    unfolding getConfig_def Let_def by (rule refl)
  show ?thesis
    unfolding mergeConfig_def mergeConfigBody_def Let_def cs' [symmetric] b bindE_def sum.case
      mergeGroup_def
      published_getProp [OF pub] r published_cropping [OF pub] cropping_tight
    by (rule refl)
qed

lemma mergeConfig_same_base:
  assumes "getConfig n1 = getConfig n2" and "getConfig n2 \<in> published" and "cs \<noteq> JNull"
  shows "mergeConfig n1 cs = mergeConfig n2 cs"
proof -
  have pub1: "getConfig n1 \<in> published" using assms(1,2) by simp
  show ?thesis
    unfolding mergeConfig_shape [OF pub1 assms(3) refl] mergeConfig_shape [OF assms(2) assms(3) refl]
      assms(1)
    by (rule refl)
qed

lemma stored_presets_empty_override:
  "mergeConfig (Some ''default'') (JObj []) = Inr processingConfig"
  "mergeConfig (Some ''brighten'') (JObj []) = Inr preset_brighten"
  "mergeConfig (Some ''subtle'') (JObj []) = Inr preset_subtle"
  "mergeConfig (Some ''vibrant'') (JObj []) = Inr preset_vibrant"
  "mergeConfig (Some ''natural'') (JObj []) = Inr preset_natural"
  by code_simp+

lemma empty_override_published:
  assumes "getConfig nameArg \<in> published"
  shows "mergeConfig nameArg (JObj []) = Inr (getConfig nameArg)"
proof -
  have ne: "JObj [] \<noteq> JNull" by simp
  have step: "mergeConfig nameArg (JObj []) = Inr (getConfig nameArg)"
    if "getConfig nameArg = getConfig (Some n)"
      and "mergeConfig (Some n) (JObj []) = Inr (getConfig (Some n))" for n
  proof -
    have "getConfig (Some n) \<in> published" using assms that(1) by simp
    from mergeConfig_same_base [OF that(1) this ne] that show ?thesis by simp
  qed
  from assms consider "getConfig nameArg = processingConfig"
    | "getConfig nameArg = preset_brighten" | "getConfig nameArg = preset_subtle"
    | "getConfig nameArg = preset_vibrant" | "getConfig nameArg = preset_natural"
    unfolding published_def by (elim insertE emptyE)
  then show ?thesis
  proof cases
    case 1
    show ?thesis
      by (rule step [of "''default''"])
        (simp_all only: 1 stored_presets stored_presets_empty_override)
  next
    case 2
    show ?thesis
      by (rule step [of "''brighten''"])
        (simp_all only: 2 stored_presets stored_presets_empty_override)
  next
    case 3
    show ?thesis
      by (rule step [of "''subtle''"])
        (simp_all only: 3 stored_presets stored_presets_empty_override)
  next
    case 4
    show ?thesis
      by (rule step [of "''vibrant''"])
        (simp_all only: 4 stored_presets stored_presets_empty_override)
  next
    case 5
    show ?thesis
      by (rule step [of "''natural''"])
        (simp_all only: 5 stored_presets stored_presets_empty_override)
  qed
qed

lemma stored_preset_resolves:
  assumes "ownProperty presets name = Some p"
  shows "mergeConfig (Some name) (JObj []) = Inr p"
  using assms unfolding ownProperty_presets
  by (auto simp: stored_presets_empty_override split: if_splits)

lemma presetField_published:
  "preset = getConfig nameArg \<Longrightarrow> preset \<in> published \<Longrightarrow>
   presetField nameArg [g] = Inr (readProp preset g)"
  by (simp add: presetField_def bindE_def published_getProp)

section \<open>The store model simulates the structural model\<close>

lemma rep_prefix:
  assumes "rep h v j" and "prefix h h'"
  shows "rep h' v j"
  using assms(1)
proof (induction rule: rep.induct)
  case (rep_object a kvs kvs')
  from assms(2) obtain zs where h': "h' = h @ zs" by (rule prefixE)
  have "a < length h'" "h' ! a = HObject kvs"
    using rep_object(1,2) by (simp_all add: h' nth_append)
  moreover have "entriesRel h' kvs kvs'"
    using rep_object(3) by (rule list_all2_mono) simp
  ultimately show ?case by (rule rep.rep_object)
next
  case (rep_array a xs js)
  from assms(2) obtain zs where h': "h' = h @ zs" by (rule prefixE)
  have "a < length h'" "h' ! a = HArray xs"
    using rep_array(1,2) by (simp_all add: h' nth_append)
  moreover have "list_all2 (rep h') xs js"
    using rep_array(3) by (rule list_all2_mono) simp
  ultimately show ?case by (rule rep.rep_array)
qed (rule rep.intros)+

lemma entriesRel_prefix:
  "entriesRel h xs ys \<Longrightarrow> prefix h h' \<Longrightarrow> entriesRel h' xs ys"
  by (erule list_all2_mono) (auto intro: rep_prefix)

lemma entriesRel_update:
  "entriesRel h xs ys \<Longrightarrow> rep h v j \<Longrightarrow>
   entriesRel h (AList.update k v xs) (AList.update k j ys)"
  by (induction rule: list_all2_induct) auto

lemma entriesRel_assign:
  "entriesRel h src src' \<Longrightarrow> entriesRel h acc acc' \<Longrightarrow>
   entriesRel h (assign acc src) (assign acc' src')"
  unfolding assign_def
proof (induction arbitrary: acc acc' rule: list_all2_induct)
  case Nil
  then show ?case by simp
next
  case (Cons p ps q qs)
  from Cons.hyps(1) Cons.prems
  have "entriesRel h (AList.update (fst p) (snd p) acc) (AList.update (fst q) (snd q) acc')"
    by (simp add: entriesRel_update)
  from Cons.IH [OF this] show ?case
    by (simp add: case_prod_beta)
qed

lemma entriesRel_map_of:
  "entriesRel h xs ys \<Longrightarrow> rel_option (rep h) (map_of xs k) (map_of ys k)"
  by (induction rule: list_all2_induct) auto

lemma entriesRel_indexed:
  assumes "list_all2 (rep h) xs js"
  shows "entriesRel h (zip (map decimal [0..<length xs]) xs) (zip (map decimal [0..<length js]) js)"
proof -
  from assms have len: "length xs = length js" by (rule list_all2_lengthD)
  show ?thesis
    unfolding list_all2_conv_all_nth
    using assms len by (auto simp: list_all2_conv_all_nth)
qed

lemma rep_ownEntries:
  assumes "rep h v j"
  shows "entriesRel h (hOwnEntries h v) (ownEntries j)"
  using assms
proof (cases rule: rep.cases)
  case (rep_str s)
  have "list_all2 (rep h) (map (\<lambda>c. HStr [c]) s) (map (\<lambda>c. JStr [c]) s)"
    by (simp add: list_all2_conv_all_nth rep.rep_str)
  from entriesRel_indexed [OF this] show ?thesis
    unfolding rep_str by simp
next
  case (rep_object a kvs kvs')
  then show ?thesis by simp
next
  case (rep_array a xs js)
  with entriesRel_indexed [of h xs js] show ?thesis by simp
qed simp_all

lemma rep_inherited:
  assumes "rep h v j"
  shows "rep h (hInherited h v k) (inherited j k)"
  using assms
  by (cases rule: rep.cases) (auto intro: rep.intros)

lemma rep_readProp:
  assumes "rep h v j"
  shows "rep h (hReadProp h v k) (readProp j k)"
proof -
  have "entriesRel h (rev (hOwnEntries h v)) (rev (ownEntries j))"
    using rep_ownEntries [OF assms] by simp
  from entriesRel_map_of [OF this, of k] rep_inherited [OF assms, of k] show ?thesis
    unfolding hReadProp_def readProp_def ownProperty_def
    by (auto elim!: option.rel_cases)
qed

lemma rep_getProp:
  assumes "rep h v j"
  shows "rel_sum (=) (rep h) (hGetProp h v k) (getProp j k)"
  using assms rep_readProp [OF assms, of k]
  by (cases rule: rep.cases) simp_all

lemma rep_optGetProp:
  assumes "rep h v j"
  shows "rep h (hOptGetProp h v k) (optGetProp j k)"
  using assms rep_readProp [OF assms, of k]
  by (cases rule: rep.cases) (simp_all add: rep.intros)

lemma rep_truthy: "rep h v j \<Longrightarrow> hTruthy v = truthy j"
  by (erule rep.cases) simp_all

lemma rep_orElse:
  "rep h a ja \<Longrightarrow> rep h b jb \<Longrightarrow> rep h (hOrElse a b) (orElse ja jb)"
  by (simp add: hOrElse_def orElse_def rep_truthy)

lemma fold_defineMember_rel:
  "list_all2 (rel_member (rep h)) ms ms' \<Longrightarrow> entriesRel h acc acc' \<Longrightarrow>
   entriesRel h (fold (defineMember (hOwnEntries h)) ms acc)
     (fold (defineMember ownEntries) ms' acc')"
proof (induction arbitrary: acc acc' rule: list_all2_induct)
  case Nil
  then show ?case by simp
next
  case (Cons m ms m' ms')
  have "entriesRel h (defineMember (hOwnEntries h) m acc) (defineMember ownEntries m' acc')"
    using Cons.hyps(1) Cons.prems
    by (cases rule: member.rel_cases)
      (simp_all add: entriesRel_assign rep_ownEntries entriesRel_update)
  from Cons.IH [OF this] show ?case by simp
qed

lemma sim_newObject:
  assumes "list_all2 (rel_member (rep h)) ms ms'"
  shows "sim h (newObject ms h) (Inr (objLit ms'))"
proof -
  let ?c = "HObject (fold (defineMember (hOwnEntries h)) ms [])"
  have p: "prefix h (h @ [?c])" by simp
  have "entriesRel h (fold (defineMember (hOwnEntries h)) ms [])
          (fold (defineMember ownEntries) ms' [])"
    using assms by (rule fold_defineMember_rel) simp
  then have "entriesRel (h @ [?c]) (fold (defineMember (hOwnEntries h)) ms [])
          (fold (defineMember ownEntries) ms' [])"
    using p by (rule entriesRel_prefix)
  then have "rep (h @ [?c]) (HRef (length h)) (JObj (fold (defineMember ownEntries) ms' []))"
    by (intro rep.rep_object) simp_all
  then show ?thesis
    by (simp add: sim_def newObject_def objLit_def)
qed

lemma sim_hGet: "rep h v j \<Longrightarrow> sim h (hGet v k h) (getProp j k)"
  by (simp add: sim_def hGet_def rep_getProp)

lemma sim_bind:
  assumes "sim h m jm"
    and "\<And>x j h'. prefix h h' \<Longrightarrow> rep h' x j \<Longrightarrow> jm = Inr j \<Longrightarrow> sim h' (f x h') (g j)"
  shows "sim h (bindH m f) (bindE jm g)"
proof -
  obtain res h1 where m: "m = (res, h1)" by (cases m)
  from assms(1) have p: "prefix h h1" and r: "rel_sum (=) (rep h1) res jm"
    by (simp_all add: sim_def m)
  from r show ?thesis
  proof (cases rule: rel_sum.cases)
    case (1 e e')
    with p show ?thesis by (simp add: sim_def m bindH_def bindE_def)
  next
    case (2 x j)
    from assms(2) [OF p 2(3) 2(2)] have "sim h1 (f x h1) (g j)" .
    then have "sim h (f x h1) (g j)"
      using p by (auto simp: sim_def)
    then show ?thesis by (simp add: m 2 bindH_def bindE_def)
  qed
qed

lemma sim_newObject_bind:
  assumes "list_all2 (rel_member (rep h)) ms ms'"
    and "\<And>r h'. prefix h h' \<Longrightarrow> rep h' r (objLit ms') \<Longrightarrow> sim h' (f r h') jm"
  shows "sim h (bindH (newObject ms h) f) jm"
proof -
  have "sim h (bindH (newObject ms h) f) (bindE (Inr (objLit ms')) (\<lambda>j. jm))"
    using sim_newObject [OF assms(1)]
  proof (rule sim_bind)
    fix x j h'
    assume "prefix h h'" "rep h' x j" "Inr (objLit ms') = Inr j"
    then show "sim h' (f x h') jm" using assms(2) [of h' x] by simp
  qed
  then show ?thesis by (simp add: bindE_def)
qed

lemma sim_mergeGroup:
  assumes b: "rep h b jb" and c: "rep h c jc"
  shows "sim h (mergeGroupH b c g h) (mergeGroup jb jc g)"
  unfolding mergeGroupH_def mergeGroup_def
proof (rule sim_bind [OF sim_hGet [OF b]])
  fix x j h1
  assume p1: "prefix h h1" and x: "rep h1 x j"
  show "sim h1 (bindH (hGet c g h1) (\<lambda>c. newObject [Spread x, Spread c]))
          (bindE (getProp jc g) (\<lambda>c. Inr (objLit [Spread j, Spread c])))"
  proof (rule sim_bind [OF sim_hGet [OF rep_prefix [OF c p1]]])
    fix y jy h2
    assume p2: "prefix h1 h2" and y: "rep h2 y jy"
    show "sim h2 (newObject [Spread x, Spread y] h2) (Inr (objLit [Spread j, Spread jy]))"
      by (rule sim_newObject) (simp add: rep_prefix [OF x p2] y)
  qed
qed

lemma those_map_Some:
  "those (map f xs) = Some ys \<Longrightarrow> list_all2 (\<lambda>x y. f x = Some y) xs ys"
proof (induction xs arbitrary: ys)
  case Nil
  then show ?case by simp
next
  case (Cons x xs)
  then show ?case
    by (auto split: option.splits)
qed

lemma reify_rep: "reify n h v = Some j \<Longrightarrow> rep h v j"
proof (induction n arbitrary: v j)
  case 0
  then show ?case
    by (cases v) (auto intro: rep.intros)
next
  case (Suc n)
  show ?case
  proof (cases v)
    case (HRef a)
    with Suc.prems have a: "a < length h"
      by (simp split: if_splits)
    show ?thesis
    proof (cases "h ! a")
      case (HObject kvs)
      with Suc.prems HRef a obtain kvs' where j: "j = JObj kvs'"
        and t: "those (map (\<lambda>p. map_option (Pair (fst p)) (reify n h (snd p))) kvs) = Some kvs'"
        by auto
      from those_map_Some [OF t]
      have "list_all2 (\<lambda>p q. map_option (Pair (fst p)) (reify n h (snd p)) = Some q) kvs kvs'" .
      then have "entriesRel h kvs kvs'"
        by (rule list_all2_mono) (auto dest: Suc.IH)
      with a HObject show ?thesis
        unfolding HRef j by (intro rep.rep_object)
    next
      case (HArray xs)
      with Suc.prems HRef a obtain js where j: "j = JArr js"
        and t: "those (map (reify n h) xs) = Some js"
        by auto
      from those_map_Some [OF t] have "list_all2 (\<lambda>x y. reify n h x = Some y) xs js" .
      then have "list_all2 (rep h) xs js"
        by (rule list_all2_mono) (rule Suc.IH)
      with a HArray show ?thesis
        unfolding HRef j by (intro rep.rep_array)
    qed
  qed (use Suc.prems in \<open>auto intro: rep.intros\<close>)
qed

lemma moduleHeap_presets: "rep moduleHeap presetsRef presets"
proof -
  have "reify 4 moduleHeap presetsRef = Some presets" by code_simp
  then show ?thesis by (rule reify_rep)
qed

lemma rep_undefined_iff: "rep h v JUndefined \<longleftrightarrow> v = HUndefined"
  by (auto elim: rep.cases intro: rep.intros)

lemma rep_is_undefined: "rep h v j \<Longrightarrow> (v = HUndefined) = (j = JUndefined)"
  by (erule rep.cases) simp_all

lemma reps_cons:
  "rep h' x j \<Longrightarrow> list_all2 (rep h) vs js \<Longrightarrow> prefix h h' \<Longrightarrow>
   list_all2 (rep h') (x # vs) (j # js)"
  by (auto elim: list_all2_mono intro: rep_prefix)

lemma sim_mergeConfigBody:
  assumes P: "rep h pa presets" and C: "rep h cs jc"
  shows "sim h (mergeConfigBodyH pa name cs h) (mergeConfigBody name jc)"
proof -
  define hb where "hb = hOrElse (hReadProp h pa name) (hReadProp h pa ''default'')"
  define jb where "jb = orElse (readProp presets name) (readProp presets ''default'')"
  have B: "rep h hb jb"
    unfolding hb_def jb_def by (intro rep_orElse rep_readProp P)
  from B C have c0: "list_all2 (rep h) [hb, cs] [jb, jc]" by simp
  show ?thesis
    unfolding mergeConfigBodyH_def mergeConfigBody_def Let_def hb_def [symmetric] jb_def [symmetric]
    apply (rule sim_bind [OF sim_mergeGroup])
      apply (use c0 in simp)
     apply (use c0 in simp)
    subgoal premises p1 for x1 j1 h1
      supply c1 = reps_cons [OF p1(2) c0 p1(1)]
      apply (rule sim_bind [OF sim_mergeGroup])
        apply (use c1 in simp)
       apply (use c1 in simp)
      subgoal premises p2 for x2 j2 h2
        supply c2 = reps_cons [OF p2(2) c1 p2(1)]
        apply (rule sim_bind [OF sim_mergeGroup])
          apply (use c2 in simp)
         apply (use c2 in simp)
        subgoal premises p3 for x3 j3 h3
          supply c3 = reps_cons [OF p3(2) c2 p3(1)]
          apply (rule sim_bind [OF sim_mergeGroup])
            apply (use c3 in simp)
           apply (use c3 in simp)
          subgoal premises p4 for x4 j4 h4
            supply c4 = reps_cons [OF p4(2) c3 p4(1)]
            apply (rule sim_bind [OF sim_hGet])
             apply (use c4 in simp)
            subgoal premises p5 for x5 j5 h5
              supply c5 = reps_cons [OF p5(2) c4 p5(1)]
              apply (rule sim_bind [OF sim_hGet])
               apply (use c5 in simp)
              subgoal premises p6 for x6 j6 h6
                supply c6 = reps_cons [OF p6(2) c5 p6(1)]
                apply (rule sim_bind [OF sim_hGet])
                 apply (use c6 in simp)
                subgoal premises p7 for x7 j7 h7
                  supply c7 = reps_cons [OF p7(2) c6 p7(1)]
                  apply (rule sim_newObject_bind
                      [where ms' = "[Spread j7, Spread (optGetProp j6 ''tightCropDetection'')]"])
                   apply (use c7 in \<open>simp add: rep_optGetProp\<close>)
                  subgoal premises p8 for x8 h8
                    supply c8 = reps_cons [OF p8(2) c7 p8(1)]
                    apply (rule sim_newObject_bind
                        [where ms' = "[Spread j5, Spread j6,
                           Prop ''tightCropDetection''
                             (objLit [Spread j7, Spread (optGetProp j6 ''tightCropDetection'')])]"])
                     apply (use c8 in simp)
                    subgoal premises p9 for x9 h9
                      supply c9 = reps_cons [OF p9(2) c8 p9(1)]
                      apply (rule sim_bind [OF sim_mergeGroup])
                        apply (use c9 in simp)
                       apply (use c9 in simp)
                      subgoal premises p10 for x10 j10 h10
                        supply c10 = reps_cons [OF p10(2) c9 p10(1)]
                        apply (rule sim_newObject)
                        apply (use c10 in simp)
                        done
                      done
                    done
                  done
                done
              done
            done
          done
        done
      done
    done
qed

lemma sim_mergeConfig:
  assumes P: "rep h pa presets" and C: "rep h cs jc"
  shows "sim h (mergeConfigH pa nameArg cs h) (mergeConfig nameArg jc)"
proof (cases "cs = HUndefined")
  case True
  have j: "jc = JUndefined" using rep_is_undefined [OF C] True by simp
  have "sim h (bindH (newObject [] h)
          (mergeConfigBodyH pa (case nameArg of None \<Rightarrow> ''default'' | Some n \<Rightarrow> n)))
        (mergeConfigBody (case nameArg of None \<Rightarrow> ''default'' | Some n \<Rightarrow> n) (JObj []))"
  proof (rule sim_newObject_bind [where ms' = "[]"])
    show "list_all2 (rel_member (rep h)) [] []" by simp
  next
    fix r h'
    assume p: "prefix h h'" and r: "rep h' r (objLit [])"
    from r have "rep h' r (JObj [])" by (simp add: objLit_def)
    with rep_prefix [OF P p]
    show "sim h' (mergeConfigBodyH pa (case nameArg of None \<Rightarrow> ''default'' | Some n \<Rightarrow> n) r h')
        (mergeConfigBody (case nameArg of None \<Rightarrow> ''default'' | Some n \<Rightarrow> n) (JObj []))"
      by (rule sim_mergeConfigBody)
  qed
  then show ?thesis
    by (simp add: mergeConfigH_def mergeConfig_def True j)
next
  case False
  have j: "jc \<noteq> JUndefined" using rep_is_undefined [OF C] False by simp
  from sim_mergeConfigBody [OF P C] show ?thesis
    by (simp add: mergeConfigH_def mergeConfig_def False j bindH_def)
qed

section \<open>What mergeConfig does to the store\<close>

lemma prefix_bindH:
  assumes "prefix h (snd m)" and "\<And>x h'. prefix h' (snd (f x h'))"
  shows "prefix h (snd (bindH m f))"
proof (cases m)
  case (Pair res h1)
  show ?thesis
  proof (cases res)
    case (Inl e)
    with assms(1) Pair show ?thesis by (simp add: bindH_def)
  next
    case (Inr x)
    from assms(1) Pair have "prefix h h1" by simp
    also have "prefix h1 (snd (f x h1))" by (rule assms(2))
    finally show ?thesis by (simp add: Pair Inr bindH_def)
  qed
qed

lemma prefix_newObject: "prefix h (snd (newObject ms h))"
  by (simp add: newObject_def)

lemma prefix_hGet: "prefix h (snd (hGet v k h))"
  by (simp add: hGet_def)

lemma prefix_mergeGroupH: "prefix h (snd (mergeGroupH b c g h))"
  unfolding mergeGroupH_def
  by (intro prefix_bindH prefix_hGet prefix_newObject)

lemma prefix_mergeConfigBodyH: "prefix h (snd (mergeConfigBodyH pa name cs h))"
  unfolding mergeConfigBodyH_def Let_def
  by (intro prefix_bindH prefix_mergeGroupH prefix_hGet prefix_newObject)

lemma prefix_mergeConfigH: "prefix h (snd (mergeConfigH pa nameArg cs h))"
  unfolding mergeConfigH_def
  by (intro prefix_bindH prefix_mergeConfigBodyH) (simp add: prefix_newObject)

lemma bindH_Inr_E:
  assumes "bindH m f = (Inr r, h')"
  obtains x h1 where "m = (Inr x, h1)" and "f x h1 = (Inr r, h')"
  using assms by (cases m) (auto simp: bindH_def split: sum.splits)

lemma newObject_Inr:
  "newObject ms h = (Inr r, h') \<Longrightarrow>
   r = HRef (length h) \<and> h' = h @ [HObject (fold (defineMember (hOwnEntries h)) ms [])]"
  by (auto simp: newObject_def)

lemma hGet_Inr: "hGet v k h = (Inr r, h') \<Longrightarrow> h' = h"
  by (simp add: hGet_def)

lemma mergeGroupH_Inr:
  "mergeGroupH b c g h = (Inr r, h') \<Longrightarrow> r = HRef (length h) \<and> (\<exists>cell. h' = h @ [cell])"
  unfolding mergeGroupH_def
  by (elim bindH_Inr_E) (auto dest!: hGet_Inr newObject_Inr)

lemma read_cell:
  assumes "a < length H" and "H ! a = HObject (fold (defineMember own) ms [])"
  shows "hReadProp H (HRef a) k =
     (case fold (memberMap own) ms Map.empty k of
        Some x \<Rightarrow> x
      | None \<Rightarrow> if k \<in> set objectPrototypeKeys then HBuiltin k else HUndefined)"
proof -
  have "distinct (map fst (fold (defineMember own) ms []))"
    by (rule distinct_fold_defineMember) simp
  then have "map_of (rev (fold (defineMember own) ms [])) = fold (memberMap own) ms Map.empty"
    by (simp add: map_of_rev_distinct map_of_fold_defineMember)
  then show ?thesis
    unfolding hReadProp_def using assms by (simp split: option.splits)
qed

lemma mergeConfigBodyH_fresh:
  assumes "mergeConfigBodyH pa name cs h = (Inr r, h')"
  shows "(\<exists>a. r = HRef a \<and> length h \<le> a \<and> a < length h') \<and>
        (\<forall>g\<in>set groupNames. \<exists>b. hReadProp h' r g = HRef b \<and> length h \<le> b \<and> b < length h') \<and>
        (\<exists>t. hReadProp h' (hReadProp h' r ''cropping'') ''tightCropDetection'' = HRef t \<and>
             length h \<le> t \<and> t < length h')"
  using assms unfolding mergeConfigBodyH_def Let_def
  apply (elim bindH_Inr_E)
  apply (drule mergeGroupH_Inr hGet_Inr newObject_Inr)+
  apply (elim conjE exE)
  subgoal premises p for x1 h1 x2 h2 x3 h3 x4 h4 x5 h5 x6 h6 x7 h7 x8 h8 x9 h9 x10 h10 c1 c2 c3 c4 c10
  proof -
    define ms where "ms =
      [Spread (hOrElse (hReadProp h pa name) (hReadProp h pa ''default'')), Spread cs,
       Prop ''brightness'' x1, Prop ''color'' x2, Prop ''contrast'' x3, Prop ''sharpening'' x4,
       Prop ''cropping'' x9, Prop ''output'' x10]"
    define cr where "cr = [Spread x5, Spread x6, Prop ''tightCropDetection'' x8]"
    have h': "h' = h10 @ [HObject (fold (defineMember (hOwnEntries h10)) ms [])]"
      unfolding ms_def by (rule p)
    have h9: "h9 = h8 @ [HObject (fold (defineMember (hOwnEntries h8)) cr [])]"
      unfolding cr_def by (rule p)
    have len: "length h1 = length h + 1" "length h2 = length h + 2" "length h3 = length h + 3"
      "length h4 = length h + 4" "length h7 = length h + 4" "length h8 = length h + 5"
      "length h9 = length h + 6" "length h10 = length h + 7" "length h' = length h + 8"
      using p by simp_all
    have xs: "x1 = HRef (length h)" "x2 = HRef (length h + 1)" "x3 = HRef (length h + 2)"
      "x4 = HRef (length h + 3)" "x8 = HRef (length h + 4)" "x9 = HRef (length h + 5)"
      "x10 = HRef (length h + 6)" "r = HRef (length h + 7)"
      using p len by simp_all
    have top: "h' ! (length h + 7) = HObject (fold (defineMember (hOwnEntries h10)) ms [])"
      unfolding h' using len(8) by (metis nth_append_length)
    have crop: "h' ! (length h + 5) = HObject (fold (defineMember (hOwnEntries h8)) cr [])"
    proof -
      have "h' = h8 @ HObject (fold (defineMember (hOwnEntries h8)) cr []) # [c10, HObject (fold (defineMember (hOwnEntries h10)) ms [])]"
        unfolding h' \<open>h10 = h9 @ [c10]\<close> h9 by simp
      then show ?thesis using len(6) by (metis nth_append_length)
    qed
    have rd: "hReadProp h' r k =
       (case fold (memberMap (hOwnEntries h10)) ms Map.empty k of
          Some x \<Rightarrow> x
        | None \<Rightarrow> if k \<in> set objectPrototypeKeys then HBuiltin k else HUndefined)" for k
      unfolding xs(8) by (rule read_cell [OF _ top]) (simp add: len)
    have rc: "hReadProp h' x9 k =
       (case fold (memberMap (hOwnEntries h8)) cr Map.empty k of
          Some x \<Rightarrow> x
        | None \<Rightarrow> if k \<in> set objectPrototypeKeys then HBuiltin k else HUndefined)" for k
      unfolding xs(6) by (rule read_cell [OF _ crop]) (simp add: len)
    have g: "hReadProp h' r ''brightness'' = x1" "hReadProp h' r ''color'' = x2"
      "hReadProp h' r ''contrast'' = x3" "hReadProp h' r ''sharpening'' = x4"
      "hReadProp h' r ''cropping'' = x9" "hReadProp h' r ''output'' = x10"
      unfolding rd ms_def by simp_all
    have t: "hReadProp h' x9 ''tightCropDetection'' = x8"
      unfolding rc cr_def by simp
    show ?thesis
      unfolding groupNames_def
      by (simp add: g t) (simp add: xs len)
  qed
  done

lemma mergeConfigH_fresh:
  assumes "mergeConfigH pa nameArg cs h = (Inr r, h')"
  shows "(\<exists>a. r = HRef a \<and> length h \<le> a \<and> a < length h') \<and>
        (\<forall>g\<in>set groupNames. \<exists>b. hReadProp h' r g = HRef b \<and> length h \<le> b \<and> b < length h') \<and>
        (\<exists>t. hReadProp h' (hReadProp h' r ''cropping'') ''tightCropDetection'' = HRef t \<and>
             length h \<le> t \<and> t < length h')"
proof -
  from assms obtain c h1
    where a: "(if cs = HUndefined then newObject [] h else (Inr cs, h)) = (Inr c, h1)"
      and b: "mergeConfigBodyH pa (case nameArg of None \<Rightarrow> ''default'' | Some n \<Rightarrow> n) c h1
                = (Inr r, h')"
    unfolding mergeConfigH_def by (elim bindH_Inr_E)
  have le: "length h \<le> length h1"
    using a by (auto simp: newObject_def split: if_splits)
  note f = mergeConfigBodyH_fresh [OF b]
  from f obtain a where 1: "r = HRef a" "length h1 \<le> a" "a < length h'"
    by (elim conjE exE)
  from f obtain t
    where 3: "hReadProp h' (hReadProp h' r ''cropping'') ''tightCropDetection'' = HRef t"
      "length h1 \<le> t" "t < length h'"
    by (elim conjE exE)
  have 2: "\<exists>b. hReadProp h' r g = HRef b \<and> length h \<le> b \<and> b < length h'"
    if "g \<in> set groupNames" for g
  proof -
    from f that obtain b where "hReadProp h' r g = HRef b" "length h1 \<le> b" "b < length h'"
      by (elim conjE) (drule (1) bspec, elim conjE exE)
    with le show ?thesis by (intro exI [of _ b]) simp
  qed
  show ?thesis
  proof (intro conjI ballI)
    show "\<exists>a. r = HRef a \<and> length h \<le> a \<and> a < length h'"
      using 1 le by (intro exI [of _ a]) simp
    show "\<exists>b. hReadProp h' r g = HRef b \<and> length h \<le> b \<and> b < length h'"
      if "g \<in> set groupNames" for g using that by (rule 2)
    show "\<exists>t. hReadProp h' (hReadProp h' r ''cropping'') ''tightCropDetection'' = HRef t \<and>
             length h \<le> t \<and> t < length h'"
      using 3 le by (intro exI [of _ t]) simp
  qed
qed

lemma mergeConfigH_prefix:
  "mergeConfigH pa nameArg cs h = (res, h') \<Longrightarrow> prefix h h'"
  using prefix_mergeConfigH [of h pa nameArg cs] by simp

lemma prefix_nth:
  "prefix h h' \<Longrightarrow> a < length h \<Longrightarrow> a < length h' \<and> h' ! a = h ! a"
  by (auto simp: prefix_def nth_append)

lemma rel_sum_Inr: "rel_sum R S x (Inr b) \<longleftrightarrow> (\<exists>a. x = Inr a \<and> S a b)"
  by (cases x) simp_all

lemma rel_sum_rep_prefix:
  "rel_sum (=) (rep h) res jm \<Longrightarrow> prefix h h' \<Longrightarrow> rel_sum (=) (rep h') res jm"
  by (auto elim!: rel_sum.cases intro: rep_prefix)

lemma mergeConfigH_result:
  assumes "rep h pa presets" and "rep h cs jc" and "mergeConfigH pa nameArg cs h = (res, h')"
  shows "rel_sum (=) (rep h') res (mergeConfig nameArg jc)"
  using sim_mergeConfig [OF assms(1,2), of nameArg] assms(3) by (simp add: sim_def)

section \<open>Crop planning\<close>





lemma published_croppingOf:
  "croppingOf processingConfig = Some defaultCropping"
  "croppingOf preset_brighten = Some defaultCropping"
  "croppingOf preset_subtle = Some defaultCropping"
  "croppingOf preset_vibrant = Some defaultCropping"
  "croppingOf preset_natural = Some defaultCropping"
  by code_simp+

lemma default_brightnessOf: "brightnessOf processingConfig = Some defaultBrightness"
  by code_simp

lemma smartCropRegion_update_tight:
  "smartCropRegion w h (c\<lparr>tightCropDetection := t\<rparr>) fc = smartCropRegion w h c fc"
proof -
  have f: "faceDetectedSize (c\<lparr>tightCropDetection := t\<rparr>) = faceDetectedSize c"
    "fallbackSize (c\<lparr>tightCropDetection := t\<rparr>) = fallbackSize c"
    "faceVerticalOffset (c\<lparr>tightCropDetection := t\<rparr>) = faceVerticalOffset c"
    "landscapeThreshold (c\<lparr>tightCropDetection := t\<rparr>) = landscapeThreshold c"
    "fallbackLandscapeTop (c\<lparr>tightCropDetection := t\<rparr>) = fallbackLandscapeTop c"
    "fallbackPortraitTop (c\<lparr>tightCropDetection := t\<rparr>) = fallbackPortraitTop c"
    by simp_all
  show ?thesis
    unfolding smartCropRegion_def f by (rule refl)
qed

text \<open>
  Claim C1, evaluated on the code. The image of Scenario B (1000 by 1000, face box
  327 by 293 at (187, 513)) has a tight verdict under the default thresholds, and the
  claim asks for a crop of side 950 centered on the face without vertical offset.
  \<^verbatim>\<open>smartCropImage\<close> crops a square of side 650 (\<^verbatim>\<open>faceDetectedSize\<close>) with the
  vertical offset applied, and its result does not depend on the
  \<^verbatim>\<open>tightCropDetection\<close> group at all.
\<close>

theorem smartCropRegion_ignores_tightCropDetection:
  "isTight (tightCropDetection defaultCropping)
     \<lparr>box_x = 187, box_y = 513, box_width = 327, box_height = 293\<rparr> 1000 1000 \<and>
   smartCropRegion 1000 1000 defaultCropping
     (detectFaceCenter (Some [\<lparr>box_x = 187, box_y = 513, box_width = 327, box_height = 293\<rparr>]))
     = \<lparr>crop_left = 25, crop_top = 350, crop_width = 650, crop_height = 650\<rparr> \<and>
   \<lfloor>of_int (min 1000 1000) * looseCropSize (tightCropDetection defaultCropping)\<rfloor> = (950 :: int) \<and>
   (\<forall>w h c t fc.
      smartCropRegion w h (c\<lparr>tightCropDetection := t\<rparr>) fc = smartCropRegion w h c fc)"
proof -
  have "isTight (tightCropDetection defaultCropping)
     \<lparr>box_x = 187, box_y = 513, box_width = 327, box_height = 293\<rparr> 1000 1000 \<and>
   smartCropRegion 1000 1000 defaultCropping
     (detectFaceCenter (Some [\<lparr>box_x = 187, box_y = 513, box_width = 327, box_height = 293\<rparr>]))
     = \<lparr>crop_left = 25, crop_top = 350, crop_width = 650, crop_height = 650\<rparr> \<and>
   \<lfloor>of_int (min 1000 1000) * looseCropSize (tightCropDetection defaultCropping)\<rfloor> = (950 :: int)"
    by code_simp
  moreover have "smartCropRegion w h (c\<lparr>tightCropDetection := t\<rparr>) fc = smartCropRegion w h c fc"
    for w h c t fc
    by (rule smartCropRegion_update_tight)
  ultimately show ?thesis by simp
qed




section \<open>Luminance buckets\<close>

text \<open>
  Claim C4 (amended). The checks run in the order dark, medium-dark, bright, base, and
  the first that matches wins, for every config: a luminance below \<^verbatim>\<open>darkThreshold\<close>
  gets \<^verbatim>\<open>darkImages\<close>; otherwise one below \<^verbatim>\<open>mediumThreshold\<close> gets
  \<^verbatim>\<open>mediumDarkImages\<close>; otherwise one above \<^verbatim>\<open>brightThreshold\<close> gets
  \<^verbatim>\<open>brightImages\<close>; otherwise \<^verbatim>\<open>base\<close>. For every config with
  \<open>darkThreshold < mediumThreshold \<le> brightThreshold\<close> the four boundary values of the
  claim hold; a luminance equal to \<^verbatim>\<open>darkThreshold\<close> or \<^verbatim>\<open>mediumThreshold\<close> belongs
  to the bucket above it (medium-dark, base), one equal to \<^verbatim>\<open>brightThreshold\<close> to base.
\<close>

theorem brightnessAdjustment_buckets:
  "(lum < darkThreshold c \<longrightarrow> brightnessAdjustment lum c = darkImages c) \<and>
   (darkThreshold c \<le> lum \<and> lum < mediumThreshold c \<longrightarrow>
      brightnessAdjustment lum c = mediumDarkImages c) \<and>
   (darkThreshold c \<le> lum \<and> mediumThreshold c \<le> lum \<and> brightThreshold c < lum \<longrightarrow>
      brightnessAdjustment lum c = brightImages c) \<and>
   (darkThreshold c \<le> lum \<and> mediumThreshold c \<le> lum \<and> lum \<le> brightThreshold c \<longrightarrow>
      brightnessAdjustment lum c = base c) \<and>
   (darkThreshold c < mediumThreshold c \<and> mediumThreshold c \<le> brightThreshold c \<longrightarrow>
      brightnessAdjustment (darkThreshold c - 1) c = darkImages c \<and>
      brightnessAdjustment (darkThreshold c) c = mediumDarkImages c \<and>
      brightnessAdjustment (brightThreshold c + 1) c = brightImages c \<and>
      brightnessAdjustment (mediumThreshold c) c = base c \<and>
      brightnessAdjustment (brightThreshold c) c = base c)"
  by (simp add: brightnessAdjustment_def)

theorem brightnessAdjustment_buckets_witness:
  "darkThreshold defaultBrightness < mediumThreshold defaultBrightness \<and>
   mediumThreshold defaultBrightness \<le> brightThreshold defaultBrightness \<and>
   brightnessAdjustment 99 defaultBrightness = 116 / 100 \<and>
   brightnessAdjustment 100 defaultBrightness = 112 / 100 \<and>
   brightnessAdjustment 181 defaultBrightness = 105 / 100 \<and>
   brightnessAdjustment 140 defaultBrightness = 12 / 10 \<and>
   brightnessAdjustment 180 defaultBrightness = 12 / 10"
  using brightnessAdjustment_buckets [of 99 defaultBrightness]
  by (simp add: defaultBrightness_def)

text \<open>
  With \<^verbatim>\<open>darkThreshold\<close> raised to 150, above \<^verbatim>\<open>mediumThreshold\<close> = 140, the luminance
  150 gets \<^verbatim>\<open>base\<close>, not \<^verbatim>\<open>mediumDarkImages\<close>. And under the default config the tie at
  \<^verbatim>\<open>darkThreshold\<close> does not go to the darker bucket.
\<close>

theorem brightnessAdjustment_counterexample:
  "brightnessAdjustment
     (darkThreshold (defaultBrightness\<lparr>darkThreshold := 150\<rparr>))
     (defaultBrightness\<lparr>darkThreshold := 150\<rparr>)
   \<noteq> mediumDarkImages (defaultBrightness\<lparr>darkThreshold := 150\<rparr>) \<and>
   brightnessAdjustment (darkThreshold defaultBrightness) defaultBrightness
   \<noteq> darkImages defaultBrightness"
  by (simp add: brightnessAdjustment_def defaultBrightness_def)

section \<open>Face selection\<close>

lemma foldl_pickLarger_last_maximal:
  "\<exists>pre post. d # ds = pre @ foldl pickLarger d ds # post \<and>
     (\<forall>b\<in>set pre. area b \<le> area (foldl pickLarger d ds)) \<and>
     (\<forall>b\<in>set post. area b < area (foldl pickLarger d ds))"
proof (induction ds rule: rev_induct)
  case Nil
  have "[d] = [] @ d # [] \<and> (\<forall>b\<in>set []. area b \<le> area d) \<and>
        (\<forall>b\<in>set []. area b < area d)"
    by simp
  then show ?case unfolding foldl_Nil by (intro exI)
next
  case (snoc y ys)
  let ?r = "foldl pickLarger d ys"
  from snoc obtain pre post where split: "d # ys = pre @ ?r # post"
    and pre: "\<forall>b\<in>set pre. area b \<le> area ?r"
    and post: "\<forall>b\<in>set post. area b < area ?r"
    by blast
  show ?case
  proof (cases "area ?r > area y")
    case True
    then have res: "foldl pickLarger d (ys @ [y]) = ?r"
      by (simp add: pickLarger_def)
    have "d # ys @ [y] = pre @ ?r # (post @ [y])"
      using split by simp
    moreover have "\<forall>b\<in>set (post @ [y]). area b < area ?r"
      using post True by simp
    ultimately show ?thesis
      unfolding res using pre by blast
  next
    case False
    then have res: "foldl pickLarger d (ys @ [y]) = y"
      by (simp add: pickLarger_def)
    have "\<forall>b\<in>set (d # ys). area b \<le> area y"
    proof
      fix b assume "b \<in> set (d # ys)"
      then have "b \<in> set pre \<or> b = ?r \<or> b \<in> set post"
        unfolding split by auto
      then have "area b \<le> area ?r"
        using pre post by (auto intro: less_imp_le)
      with False show "area b \<le> area y" by simp
    qed
    moreover have "d # ys @ [y] = (d # ys) @ y # []" by simp
    moreover have "\<forall>b\<in>set []. area b < area y" by simp
    ultimately show ?thesis
      unfolding res by blast
  qed
qed

text \<open>
  Claim C5 (amended). For every non-empty list of detected boxes, exactly one box is
  retained, it has maximal area, and when several boxes have the maximal area it is the
  last of them in the list: every box before it is at most as large, every box after it
  is strictly smaller.
\<close>

theorem largestFace_last_maximal:
  "ds \<noteq> [] \<Longrightarrow>
   \<exists>pre r post. largestFace ds = Some r \<and> ds = pre @ r # post \<and>
     (\<forall>b\<in>set pre. area b \<le> area r) \<and> (\<forall>b\<in>set post. area b < area r)"
proof (cases ds)
  case Nil
  assume "ds \<noteq> []"
  with Nil show ?thesis by simp
next
  case (Cons d ds')
  from foldl_pickLarger_last_maximal [of d ds'] show ?thesis
    unfolding Cons largestFace.simps by blast
qed

theorem largestFace_last_maximal_witness:
  "[\<lparr>box_x = 0, box_y = 0, box_width = 10, box_height = 10\<rparr>,
    \<lparr>box_x = 50, box_y = 60, box_width = 20, box_height = 5\<rparr>] \<noteq> [] \<and>
   (\<exists>pre r post.
      largestFace [\<lparr>box_x = 0, box_y = 0, box_width = 10, box_height = 10\<rparr>,
                   \<lparr>box_x = 50, box_y = 60, box_width = 20, box_height = 5\<rparr>] = Some r \<and>
      [\<lparr>box_x = 0, box_y = 0, box_width = 10, box_height = 10\<rparr>,
       \<lparr>box_x = 50, box_y = 60, box_width = 20, box_height = 5\<rparr>] = pre @ r # post \<and>
      (\<forall>b\<in>set pre. area b \<le> area r) \<and> (\<forall>b\<in>set post. area b < area r))"
  using largestFace_last_maximal
    [of "[\<lparr>box_x = 0, box_y = 0, box_width = 10, box_height = 10\<rparr>,
          \<lparr>box_x = 50, box_y = 60, box_width = 20, box_height = 5\<rparr>]"]
  by blast

text \<open>
  Two boxes of equal area 100: the second one is retained, not the first-seen one.
\<close>

theorem largestFace_tie_counterexample:
  "area \<lparr>box_x = 0, box_y = 0, box_width = 10, box_height = 10\<rparr>
     = area \<lparr>box_x = 50, box_y = 60, box_width = 20, box_height = 5\<rparr> \<and>
   largestFace [\<lparr>box_x = 0, box_y = 0, box_width = 10, box_height = 10\<rparr>,
                \<lparr>box_x = 50, box_y = 60, box_width = 20, box_height = 5\<rparr>]
     = Some \<lparr>box_x = 50, box_y = 60, box_width = 20, box_height = 5\<rparr> \<and>
   largestFace [\<lparr>box_x = 0, box_y = 0, box_width = 10, box_height = 10\<rparr>,
                \<lparr>box_x = 50, box_y = 60, box_width = 20, box_height = 5\<rparr>]
     \<noteq> Some \<lparr>box_x = 0, box_y = 0, box_width = 10, box_height = 10\<rparr>"
  by (simp add: pickLarger_def area_def)

section \<open>Config resolution\<close>

text \<open>
  Claim C3. Scenario D: merging \<^verbatim>\<open>{cropping: {tightCropDetection: {looseCropSize: 0.98}}}\<close>
  onto the default preset leaves \<^verbatim>\<open>faceToImageRatioThreshold\<close> and
  \<^verbatim>\<open>faceEdgeDistanceThreshold\<close> at the preset's values 0.03 and 0.20 and sets
  \<^verbatim>\<open>looseCropSize\<close> to 0.98. In general, for every preset name that does not hit a
  member of \<^verbatim>\<open>Object.prototype\<close> and every override other than \<^verbatim>\<open>null\<close>, a field
  \<open>k\<close> that the override's \<^verbatim>\<open>cropping?.tightCropDetection\<close> does not define has in
  the resolved \<^verbatim>\<open>cropping.tightCropDetection\<close> the value it has in the preset.
\<close>

theorem mergeConfig_deep_merges_tightCropDetection:
  "resolvedField (Some ''default'')
     (JObj [(''cropping'', JObj [(''tightCropDetection'', JObj [(''looseCropSize'', JNum 0.98)])])])
     [''cropping'', ''tightCropDetection'', ''faceToImageRatioThreshold''] = Inr (JNum 0.03) \<and>
   presetField (Some ''default'')
     [''cropping'', ''tightCropDetection'', ''faceToImageRatioThreshold''] = Inr (JNum 0.03) \<and>
   resolvedField (Some ''default'')
     (JObj [(''cropping'', JObj [(''tightCropDetection'', JObj [(''looseCropSize'', JNum 0.98)])])])
     [''cropping'', ''tightCropDetection'', ''faceEdgeDistanceThreshold''] = Inr (JNum 0.20) \<and>
   presetField (Some ''default'')
     [''cropping'', ''tightCropDetection'', ''faceEdgeDistanceThreshold''] = Inr (JNum 0.20) \<and>
   resolvedField (Some ''default'')
     (JObj [(''cropping'', JObj [(''tightCropDetection'', JObj [(''looseCropSize'', JNum 0.98)])])])
     [''cropping'', ''tightCropDetection'', ''looseCropSize''] = Inr (JNum 0.98) \<and>
   (\<not> inheritedName nameArg \<and> cs \<noteq> JNull \<and>
    ownProperty (optGetProp (readProp cs ''cropping'') ''tightCropDetection'') k = None \<longrightarrow>
      (\<exists>v. resolvedField nameArg cs [''cropping'', ''tightCropDetection'', k] = Inr v \<and>
           presetField nameArg [''cropping'', ''tightCropDetection'', k] = Inr v))"
proof -
  have scenario:
    "resolvedField (Some ''default'')
       (JObj [(''cropping'', JObj [(''tightCropDetection'', JObj [(''looseCropSize'', JNum 0.98)])])])
       [''cropping'', ''tightCropDetection'', ''faceToImageRatioThreshold''] = Inr (JNum 0.03) \<and>
     presetField (Some ''default'')
       [''cropping'', ''tightCropDetection'', ''faceToImageRatioThreshold''] = Inr (JNum 0.03) \<and>
     resolvedField (Some ''default'')
       (JObj [(''cropping'', JObj [(''tightCropDetection'', JObj [(''looseCropSize'', JNum 0.98)])])])
       [''cropping'', ''tightCropDetection'', ''faceEdgeDistanceThreshold''] = Inr (JNum 0.20) \<and>
     presetField (Some ''default'')
       [''cropping'', ''tightCropDetection'', ''faceEdgeDistanceThreshold''] = Inr (JNum 0.20) \<and>
     resolvedField (Some ''default'')
       (JObj [(''cropping'', JObj [(''tightCropDetection'', JObj [(''looseCropSize'', JNum 0.98)])])])
       [''cropping'', ''tightCropDetection'', ''looseCropSize''] = Inr (JNum 0.98)"
    by code_simp
  have general:
    "\<exists>v. resolvedField nameArg cs [''cropping'', ''tightCropDetection'', k] = Inr v \<and>
         presetField nameArg [''cropping'', ''tightCropDetection'', k] = Inr v"
    if name: "\<not> inheritedName nameArg" and cs: "cs \<noteq> JNull"
      and absent: "ownProperty (optGetProp (readProp cs ''cropping'') ''tightCropDetection'') k = None"
  proof -
    have pub: "getConfig nameArg \<in> published"
      using name by (rule getConfig_published)
    define cs' where "cs' = (if cs = JUndefined then JObj [] else cs)"
    note shape = mergeConfig_shape [OF pub cs cs'_def]
    obtain kvs where kvs: "processingConfig_tightCropDetection = JObj kvs"
      using tight_is_object by (elim exE)
    have c: "readProp cs' ''cropping'' = readProp cs ''cropping''"
      unfolding cs'_def by (rule readProp_custom) (simp add: objectPrototypeKeys_def)
    have "resolvedField nameArg cs [''cropping'', ''tightCropDetection'', k]
          = getProp (objLit [Spread processingConfig_tightCropDetection,
              Spread (optGetProp (readProp cs ''cropping'') ''tightCropDetection'')]) k"
      unfolding resolvedField_def shape bindE_def sum.case getPath.simps literal_fields
        cropping_literal_tight c
      by (cases "getProp (objLit [Spread processingConfig_tightCropDetection,
              Spread (optGetProp (readProp cs ''cropping'') ''tightCropDetection'')]) k")
        simp_all
    also have "\<dots> = Inr (readProp processingConfig_tightCropDetection k)"
      unfolding getProp_objLit kvs readProp_respread [OF absent] by (rule refl)
    finally have r: "resolvedField nameArg cs [''cropping'', ''tightCropDetection'', k]
          = Inr (readProp processingConfig_tightCropDetection k)" .
    have "presetField nameArg [''cropping'', ''tightCropDetection'', k]
          = getProp processingConfig_tightCropDetection k"
      unfolding presetField_def bindE_def sum.case getPath.simps
        published_getProp [OF pub] published_cropping [OF pub] cropping_tight
      by (cases "getProp processingConfig_tightCropDetection k") simp_all
    also have "\<dots> = Inr (readProp processingConfig_tightCropDetection k)"
      unfolding kvs by simp
    finally have p: "presetField nameArg [''cropping'', ''tightCropDetection'', k]
          = Inr (readProp processingConfig_tightCropDetection k)" .
    from r p show ?thesis by (intro exI conjI)
  qed
  show ?thesis
    using scenario general by (simp only: simp_thms) (intro impI, elim conjE)
qed

theorem mergeConfig_deep_merges_tightCropDetection_witness:
  "\<not> inheritedName (Some ''vibrant'') \<and>
   JObj [(''cropping'', JObj [(''tightCropDetection'', JObj [(''enabled'', JBool False)])])]
     \<noteq> JNull \<and>
   ownProperty
     (optGetProp
        (readProp
           (JObj [(''cropping'', JObj [(''tightCropDetection'', JObj [(''enabled'', JBool False)])])])
           ''cropping'')
        ''tightCropDetection'')
     ''looseCropSize'' = None \<and>
   (\<exists>v. resolvedField (Some ''vibrant'')
          (JObj [(''cropping'', JObj [(''tightCropDetection'', JObj [(''enabled'', JBool False)])])])
          [''cropping'', ''tightCropDetection'', ''looseCropSize''] = Inr v \<and>
        presetField (Some ''vibrant'')
          [''cropping'', ''tightCropDetection'', ''looseCropSize''] = Inr v)"
proof -
  have a: "\<not> inheritedName (Some ''vibrant'')"
    by (simp add: inheritedName_def objectPrototypeKeys_def)
  have b: "JObj [(''cropping'', JObj [(''tightCropDetection'', JObj [(''enabled'', JBool False)])])]
     \<noteq> JNull"
    by simp
  have c: "ownProperty
     (optGetProp
        (readProp
           (JObj [(''cropping'', JObj [(''tightCropDetection'', JObj [(''enabled'', JBool False)])])])
           ''cropping'')
        ''tightCropDetection'')
     ''looseCropSize'' = None"
    by code_simp
  from mergeConfig_deep_merges_tightCropDetection
    [of "Some ''vibrant''"
      "JObj [(''cropping'', JObj [(''tightCropDetection'', JObj [(''enabled'', JBool False)])])]"
      "''looseCropSize''"]
    a b c
  show ?thesis by simp
qed

text \<open>
  Claim C6 (amended). Top-level fields of the override outside the six groups are not
  ignored: \<^verbatim>\<open>mergeConfig\<close> spreads the whole override into its result, so for every
  preset name that does not hit a member of \<^verbatim>\<open>Object.prototype\<close> and every override
  other than \<^verbatim>\<open>null\<close>, a field \<open>k\<close> of the override that is not one of
  \<^verbatim>\<open>brightness\<close>, \<^verbatim>\<open>color\<close>, \<^verbatim>\<open>contrast\<close>, \<^verbatim>\<open>sharpening\<close>, \<^verbatim>\<open>cropping\<close>,
  \<^verbatim>\<open>output\<close> appears in the resolved config with the override's value.
\<close>

theorem mergeConfig_keeps_unknown_fields:
  assumes "\<not> inheritedName nameArg" and "cs \<noteq> JNull"
    and "k \<notin> set groupNames" and "ownProperty cs k = Some v"
  shows "resolvedField nameArg cs [k] = Inr v"
proof -
  have pub: "getConfig nameArg \<in> published"
    using assms(1) by (rule getConfig_published)
  define cs' where "cs' = (if cs = JUndefined then JObj [] else cs)"
  have own: "map_of (rev (ownEntries cs')) k = Some v"
    using assms(4) ownProperty_custom [of cs k] unfolding cs'_def ownProperty_def by simp
  have ne: "k \<noteq> ''brightness''" "k \<noteq> ''color''" "k \<noteq> ''contrast''"
    "k \<noteq> ''sharpening''" "k \<noteq> ''cropping''" "k \<noteq> ''output''"
    using assms(3) by (auto simp: groupNames_def)
  show ?thesis
    unfolding resolvedField_def mergeConfig_shape [OF pub assms(2) cs'_def]
    by (simp add: bindE_def getProp_objLit readProp_objLit own ne)
qed

theorem mergeConfig_keeps_unknown_fields_witness:
  "\<not> inheritedName (Some ''default'') \<and>
   JObj [(''foo'', JNum 1)] \<noteq> JNull \<and>
   ''foo'' \<notin> set groupNames \<and>
   ownProperty (JObj [(''foo'', JNum 1)]) ''foo'' = Some (JNum 1) \<and>
   resolvedField (Some ''default'') (JObj [(''foo'', JNum 1)]) [''foo''] = Inr (JNum 1)"
proof -
  have a: "\<not> inheritedName (Some ''default'')"
    by (simp add: inheritedName_def objectPrototypeKeys_def)
  have b: "JObj [(''foo'', JNum 1)] \<noteq> JNull" by simp
  have c: "''foo'' \<notin> set groupNames" by (simp add: groupNames_def)
  have d: "ownProperty (JObj [(''foo'', JNum 1)]) ''foo'' = Some (JNum 1)"
    by (simp add: ownProperty_def)
  from mergeConfig_keeps_unknown_fields [OF a b c d] a b c d show ?thesis
    by (intro conjI)
qed

text \<open>
  The override \<^verbatim>\<open>{foo: 1}\<close> on the default preset: \<^verbatim>\<open>foo\<close> is outside the six groups
  and absent from the preset, and the resolved config has \<^verbatim>\<open>foo\<close> = 1.
\<close>

theorem mergeConfig_unknown_field_counterexample:
  "''foo'' \<notin> set groupNames \<and>
   getPath processingConfig [''foo''] = Inr JUndefined \<and>
   resolvedField (Some ''default'') (JObj [(''foo'', JNum 1)]) [''foo''] = Inr (JNum 1)"
  by code_simp

text \<open>
  Claim C8, evaluated on the code. An unknown name such as \<^verbatim>\<open>no-such-preset\<close>, and an
  absent name, resolve as \<^verbatim>\<open>default\<close> does. The name \<^verbatim>\<open>constructor\<close> is not a stored
  preset either, but \<^verbatim>\<open>presets['constructor']\<close> finds the member inherited from
  \<^verbatim>\<open>Object.prototype\<close>, which is truthy: \<^verbatim>\<open>getConfig\<close> returns it instead of the
  default preset, and \<^verbatim>\<open>mergeConfig\<close> raises a TypeError on
  \<^verbatim>\<open>base.cropping.tightCropDetection\<close>.
\<close>

theorem mergeConfig_inherited_name_evaluated:
  "ownProperty presets ''constructor'' = None \<and>
   getConfig (Some ''constructor'') = JBuiltin ''constructor'' \<and>
   getConfig (Some ''default'') = processingConfig \<and>
   mergeConfig (Some ''constructor'') (JObj []) = Inl TypeError \<and>
   mergeConfig (Some ''default'') (JObj []) = Inr processingConfig \<and>
   mergeConfig (Some ''no-such-preset'') (JObj []) = Inr processingConfig \<and>
   mergeConfig None (JObj []) = Inr processingConfig"
  by code_simp

text \<open>
  Claim C9. For every preset name that does not hit a member of \<^verbatim>\<open>Object.prototype\<close>
  and every override other than \<^verbatim>\<open>null\<close>, \<^verbatim>\<open>mergeConfig\<close> returns a config. Every
  group that the override does not define is, in the result, equal to the preset's group;
  and when the override has no \<^verbatim>\<open>cropping\<close>, the result's
  \<^verbatim>\<open>cropping.tightCropDetection\<close> is the preset's.
\<close>

theorem mergeConfig_total_on_partial_overrides:
  assumes name: "\<not> inheritedName nameArg" and cs: "cs \<noteq> JNull"
  shows "(\<exists>config. mergeConfig nameArg cs = Inr config) \<and>
    (\<forall>g\<in>set groupNames. ownProperty cs g = None \<longrightarrow>
       (\<exists>v. resolvedField nameArg cs [g] = Inr v \<and> presetField nameArg [g] = Inr v)) \<and>
    (ownProperty cs ''cropping'' = None \<longrightarrow>
       resolvedField nameArg cs [''cropping'', ''tightCropDetection'']
         = Inr processingConfig_tightCropDetection \<and>
       presetField nameArg [''cropping'', ''tightCropDetection'']
         = Inr processingConfig_tightCropDetection)"
proof -
  have pub: "getConfig nameArg \<in> published"
    using name by (rule getConfig_published)
  define cs' where "cs' = (if cs = JUndefined then JObj [] else cs)"
  note shape = mergeConfig_shape [OF pub cs cs'_def]
  note rf = resolvedField_def shape bindE_def sum.case getPath.simps literal_fields
  have total: "\<exists>config. mergeConfig nameArg cs = Inr config"
    unfolding shape by (rule exI) (rule refl)
  have undef: "readProp cs' g = JUndefined"
    if "g \<in> set groupNames" "ownProperty cs g = None" for g
    unfolding cs'_def using that(2) group_not_inherited [OF that(1)] by (rule readProp_absent)
  have crop: "resolvedField nameArg cs [''cropping'']
         = Inr (readProp (getConfig nameArg) ''cropping'')"
    and tight: "resolvedField nameArg cs [''cropping'', ''tightCropDetection'']
         = Inr processingConfig_tightCropDetection"
    if absent: "ownProperty cs ''cropping'' = None"
  proof -
    have u: "readProp cs' ''cropping'' = JUndefined"
      using absent by (intro undef) (simp add: groupNames_def)
    have o: "optGetProp JUndefined ''tightCropDetection'' = JUndefined" by simp
    show "resolvedField nameArg cs [''cropping'']
         = Inr (readProp (getConfig nameArg) ''cropping'')"
      unfolding rf u o respread_cropping published_cropping [OF pub] by (rule refl)
    show "resolvedField nameArg cs [''cropping'', ''tightCropDetection'']
         = Inr processingConfig_tightCropDetection"
      unfolding rf u o respread_cropping cropping_tight by (rule refl)
  qed
  have other: "resolvedField nameArg cs [g] = Inr (readProp (getConfig nameArg) g)"
    if g: "g \<in> set [''brightness'', ''color'', ''contrast'', ''sharpening'', ''output'']"
      and absent: "ownProperty cs g = None" for g
  proof -
    have u: "readProp cs' g = JUndefined"
      using g absent by (intro undef) (auto simp: groupNames_def)
    note r = respread_group [OF pub g]
    from g have "g = ''brightness'' \<or> g = ''color'' \<or> g = ''contrast''
      \<or> g = ''sharpening'' \<or> g = ''output''"
      by simp
    then consider "g = ''brightness''" | "g = ''color''" | "g = ''contrast''"
      | "g = ''sharpening''" | "g = ''output''"
      by (elim disjE)
    then show ?thesis
    proof cases
      case 1
      show ?thesis using u r unfolding 1 rf by (simp only:)
    next
      case 2
      show ?thesis using u r unfolding 2 rf by (simp only:)
    next
      case 3
      show ?thesis using u r unfolding 3 rf by (simp only:)
    next
      case 4
      show ?thesis using u r unfolding 4 rf by (simp only:)
    next
      case 5
      show ?thesis using u r unfolding 5 rf by (simp only:)
    qed
  qed
  have group: "\<exists>v. resolvedField nameArg cs [g] = Inr v \<and> presetField nameArg [g] = Inr v"
    if g: "g \<in> set groupNames" and absent: "ownProperty cs g = None" for g
  proof (intro exI conjI)
    show "presetField nameArg [g] = Inr (readProp (getConfig nameArg) g)"
      by (rule presetField_published [OF refl pub])
    show "resolvedField nameArg cs [g] = Inr (readProp (getConfig nameArg) g)"
    proof (cases "g = ''cropping''")
      case True
      show ?thesis using absent unfolding True by (rule crop)
    next
      case False
      with g have "g \<in> set [''brightness'', ''color'', ''contrast'', ''sharpening'', ''output'']"
        by (simp add: groupNames_def)
      then show ?thesis using absent by (rule other)
    qed
  qed
  have ptight: "presetField nameArg [''cropping'', ''tightCropDetection'']
         = Inr processingConfig_tightCropDetection"
    unfolding presetField_def bindE_def sum.case getPath.simps
      published_getProp [OF pub] published_cropping [OF pub] cropping_tight
    by (rule refl)
  show ?thesis
  proof (intro conjI ballI impI)
    show "\<exists>config. mergeConfig nameArg cs = Inr config" by (rule total)
  next
    fix g assume "g \<in> set groupNames" "ownProperty cs g = None"
    then show "\<exists>v. resolvedField nameArg cs [g] = Inr v \<and> presetField nameArg [g] = Inr v"
      by (rule group)
  next
    assume "ownProperty cs ''cropping'' = None"
    then show "resolvedField nameArg cs [''cropping'', ''tightCropDetection'']
         = Inr processingConfig_tightCropDetection"
      by (rule tight)
  next
    show "presetField nameArg [''cropping'', ''tightCropDetection'']
         = Inr processingConfig_tightCropDetection"
      by (rule ptight)
  qed
qed

theorem mergeConfig_total_on_partial_overrides_witness:
  "\<not> inheritedName (Some ''brighten'') \<and>
   JObj [(''brightness'', JObj [(''base'', JNum 1.3)])] \<noteq> JNull \<and>
   ownProperty (JObj [(''brightness'', JObj [(''base'', JNum 1.3)])]) ''cropping'' = None \<and>
   (\<exists>config. mergeConfig (Some ''brighten'')
      (JObj [(''brightness'', JObj [(''base'', JNum 1.3)])]) = Inr config) \<and>
   resolvedField (Some ''brighten'') (JObj [(''brightness'', JObj [(''base'', JNum 1.3)])])
     [''cropping'', ''tightCropDetection''] = Inr processingConfig_tightCropDetection \<and>
   presetField (Some ''brighten'') [''cropping'', ''tightCropDetection'']
     = Inr processingConfig_tightCropDetection"
proof -
  have a: "\<not> inheritedName (Some ''brighten'')"
    by (simp add: inheritedName_def objectPrototypeKeys_def)
  have b: "JObj [(''brightness'', JObj [(''base'', JNum 1.3)])] \<noteq> JNull" by simp
  have c: "ownProperty (JObj [(''brightness'', JObj [(''base'', JNum 1.3)])]) ''cropping'' = None"
    by (simp add: ownProperty_def)
  from mergeConfig_total_on_partial_overrides [OF a b] a b c show ?thesis
    by simp
qed

section \<open>Config resolution and the store\<close>

text \<open>
  Claim C7. \<^verbatim>\<open>mergeConfig\<close> with an empty override (\<^verbatim>\<open>{}\<close>, or none at all) on a stored
  preset returns a config equal to that preset, member for member. Its outcome is a function
  of the values of its arguments only: called twice in a row on the same preset table and
  the same override, both calls end the same way, and both results represent the value that
  the value-level \<^verbatim>\<open>mergeConfig\<close> gives; so do two calls in two different stores whose
  arguments hold the same values. The override is a plain data object here: its members
  are read, none of them is a getter.
\<close>

theorem mergeConfig_pure:
  "(ownProperty presets name = Some p \<longrightarrow>
      mergeConfig (Some name) (JObj []) = Inr p \<and> mergeConfig (Some name) JUndefined = Inr p) \<and>
   (rep h pa presets \<and> rep h cs jc \<and>
    mergeConfigH pa nameArg cs h = (res1, h1) \<and> mergeConfigH pa nameArg cs h1 = (res2, h2) \<longrightarrow>
      rel_sum (=) (rep h2) res1 (mergeConfig nameArg jc) \<and>
      rel_sum (=) (rep h2) res2 (mergeConfig nameArg jc)) \<and>
   (rep h pa presets \<and> rep h cs jc \<and> rep g pb presets \<and> rep g ct jc \<and>
    mergeConfigH pa nameArg cs h = (res1, h1) \<and> mergeConfigH pb nameArg ct g = (res3, g3) \<longrightarrow>
      rel_sum (=) (rep h1) res1 (mergeConfig nameArg jc) \<and>
      rel_sum (=) (rep g3) res3 (mergeConfig nameArg jc))"
proof (intro conjI impI)
  assume "ownProperty presets name = Some p"
  then show e: "mergeConfig (Some name) (JObj []) = Inr p"
    by (rule stored_preset_resolves)
  show "mergeConfig (Some name) JUndefined = Inr p"
    unfolding mergeConfig_undefined_override by (rule e)
next
  assume a: "rep h pa presets \<and> rep h cs jc \<and>
    mergeConfigH pa nameArg cs h = (res1, h1) \<and> mergeConfigH pa nameArg cs h1 = (res2, h2)"
  then have P: "rep h pa presets" and C: "rep h cs jc"
    and r1: "mergeConfigH pa nameArg cs h = (res1, h1)"
    and r2: "mergeConfigH pa nameArg cs h1 = (res2, h2)"
    by simp_all
  have p1: "prefix h h1" using r1 by (rule mergeConfigH_prefix)
  have p2: "prefix h1 h2" using r2 by (rule mergeConfigH_prefix)
  have "rel_sum (=) (rep h1) res1 (mergeConfig nameArg jc)"
    using P C r1 by (rule mergeConfigH_result)
  then show "rel_sum (=) (rep h2) res1 (mergeConfig nameArg jc)"
    using p2 by (rule rel_sum_rep_prefix)
  show "rel_sum (=) (rep h2) res2 (mergeConfig nameArg jc)"
    using rep_prefix [OF P p1] rep_prefix [OF C p1] r2 by (rule mergeConfigH_result)
next
  assume a: "rep h pa presets \<and> rep h cs jc \<and> rep g pb presets \<and> rep g ct jc \<and>
    mergeConfigH pa nameArg cs h = (res1, h1) \<and> mergeConfigH pb nameArg ct g = (res3, g3)"
  then have P: "rep h pa presets" and C: "rep h cs jc"
    and P': "rep g pb presets" and C': "rep g ct jc"
    and r1: "mergeConfigH pa nameArg cs h = (res1, h1)"
    and r3: "mergeConfigH pb nameArg ct g = (res3, g3)"
    by simp_all
  show "rel_sum (=) (rep h1) res1 (mergeConfig nameArg jc)"
    using P C r1 by (rule mergeConfigH_result)
  show "rel_sum (=) (rep g3) res3 (mergeConfig nameArg jc)"
    using P' C' r3 by (rule mergeConfigH_result)
qed

theorem mergeConfig_pure_witness:
  "ownProperty presets ''brighten'' = Some preset_brighten \<and>
   mergeConfig (Some ''brighten'') (JObj []) = Inr preset_brighten \<and>
   mergeConfig (Some ''brighten'') JUndefined = Inr preset_brighten \<and>
   rep moduleHeap presetsRef presets \<and>
   rep moduleHeap HUndefined JUndefined \<and>
   (\<exists>res1 h1 res2 h2 r1 r2.
      mergeConfigH presetsRef (Some ''brighten'') HUndefined moduleHeap = (res1, h1) \<and>
      mergeConfigH presetsRef (Some ''brighten'') HUndefined h1 = (res2, h2) \<and>
      res1 = Inr r1 \<and> res2 = Inr r2 \<and>
      rep h2 r1 preset_brighten \<and> rep h2 r2 preset_brighten)"
proof -
  have own: "ownProperty presets ''brighten'' = Some preset_brighten"
    by (simp add: ownProperty_presets stored_presets)
  have P: "rep moduleHeap presetsRef presets" by (rule moduleHeap_presets)
  have C: "rep moduleHeap HUndefined JUndefined" by (rule rep_undefined)
  obtain res1 h1
    where r1: "mergeConfigH presetsRef (Some ''brighten'') HUndefined moduleHeap = (res1, h1)"
    by (rule prod.exhaust)
  obtain res2 h2
    where r2: "mergeConfigH presetsRef (Some ''brighten'') HUndefined h1 = (res2, h2)"
    by (rule prod.exhaust)
  note t = mergeConfig_pure [of "''brighten''" preset_brighten moduleHeap presetsRef HUndefined
      JUndefined "Some ''brighten''" res1 h1 res2 h2]
  from t own have v: "mergeConfig (Some ''brighten'') (JObj []) = Inr preset_brighten"
    "mergeConfig (Some ''brighten'') JUndefined = Inr preset_brighten"
    by simp_all
  from t P C r1 r2
  have "rel_sum (=) (rep h2) res1 (mergeConfig (Some ''brighten'') JUndefined)"
    and "rel_sum (=) (rep h2) res2 (mergeConfig (Some ''brighten'') JUndefined)"
    by simp_all
  then obtain r1' r2' where "res1 = Inr r1'" "rep h2 r1' preset_brighten"
    "res2 = Inr r2'" "rep h2 r2' preset_brighten"
    unfolding v rel_sum_Inr by (elim exE conjE)
  with own v P C r1 r2 show ?thesis
    by (intro conjI exI [of _ res1] exI [of _ h1] exI [of _ res2] exI [of _ h2]
        exI [of _ r1'] exI [of _ r2'])
qed

text \<open>
  Claim C10. A call of \<^verbatim>\<open>mergeConfig\<close>, whatever the preset name and the override and however
  it ends, changes no object that was in the store before it: every store cell is left as
  it was, so every value that could be read before the call, the preset table with its
  presets, their groups and \<^verbatim>\<open>cropping.tightCropDetection\<close> among them, reads the same
  after it. When the call returns a config, the config is an object allocated by the call,
  and so are its six groups and its \<^verbatim>\<open>cropping.tightCropDetection\<close>.
\<close>

theorem mergeConfig_leaves_presets_unchanged:
  assumes run: "mergeConfigH pa nameArg cs h = (res, h')"
  shows "(\<forall>a<length h. a < length h' \<and> h' ! a = h ! a) \<and>
    (\<forall>v j. rep h v j \<longrightarrow> rep h' v j) \<and>
    (\<forall>r. res = Inr r \<longrightarrow>
       (\<exists>a. r = HRef a \<and> length h \<le> a \<and> a < length h') \<and>
       (\<forall>g\<in>set groupNames.
          \<exists>b. hReadProp h' r g = HRef b \<and> length h \<le> b \<and> b < length h') \<and>
       (\<exists>t. hReadProp h' (hReadProp h' r ''cropping'') ''tightCropDetection'' = HRef t \<and>
            length h \<le> t \<and> t < length h'))"
proof -
  have p: "prefix h h'" using run by (rule mergeConfigH_prefix)
  have 1: "\<forall>a<length h. a < length h' \<and> h' ! a = h ! a"
    by (intro allI impI) (rule prefix_nth [OF p])
  have 2: "\<forall>v j. rep h v j \<longrightarrow> rep h' v j"
    by (intro allI impI) (rule rep_prefix [OF _ p])
  have 3: "\<forall>r. res = Inr r \<longrightarrow>
       (\<exists>a. r = HRef a \<and> length h \<le> a \<and> a < length h') \<and>
       (\<forall>g\<in>set groupNames.
          \<exists>b. hReadProp h' r g = HRef b \<and> length h \<le> b \<and> b < length h') \<and>
       (\<exists>t. hReadProp h' (hReadProp h' r ''cropping'') ''tightCropDetection'' = HRef t \<and>
            length h \<le> t \<and> t < length h')"
  proof (intro allI impI)
    fix r assume "res = Inr r"
    with run have "mergeConfigH pa nameArg cs h = (Inr r, h')" by simp
    then show "(\<exists>a. r = HRef a \<and> length h \<le> a \<and> a < length h') \<and>
       (\<forall>g\<in>set groupNames.
          \<exists>b. hReadProp h' r g = HRef b \<and> length h \<le> b \<and> b < length h') \<and>
       (\<exists>t. hReadProp h' (hReadProp h' r ''cropping'') ''tightCropDetection'' = HRef t \<and>
            length h \<le> t \<and> t < length h')"
      by (rule mergeConfigH_fresh)
  qed
  show ?thesis by (rule conjI [OF 1 conjI [OF 2 3]])
qed

theorem mergeConfig_leaves_presets_unchanged_witness:
  "rep moduleHeap presetsRef presets \<and>
   (\<exists>res h' r a.
      mergeConfigH presetsRef (Some ''brighten'') HUndefined moduleHeap = (res, h') \<and>
      h' ! 24 = moduleHeap ! 24 \<and>
      rep h' presetsRef presets \<and>
      res = Inr r \<and> r = HRef a \<and> length moduleHeap \<le> a \<and> a < length h' \<and>
      rep h' r preset_brighten)"
proof -
  have P: "rep moduleHeap presetsRef presets" by (rule moduleHeap_presets)
  have C: "rep moduleHeap HUndefined JUndefined" by (rule rep_undefined)
  have len: "(24::nat) < length moduleHeap" by code_simp
  obtain res h'
    where run: "mergeConfigH presetsRef (Some ''brighten'') HUndefined moduleHeap = (res, h')"
    by (rule prod.exhaust)
  note t = mergeConfig_leaves_presets_unchanged [OF run]
  from t len have cell: "h' ! 24 = moduleHeap ! 24" by simp
  from t P have P': "rep h' presetsRef presets" by simp
  have "rel_sum (=) (rep h') res (mergeConfig (Some ''brighten'') JUndefined)"
    using P C run by (rule mergeConfigH_result)
  then obtain r where r: "res = Inr r" "rep h' r preset_brighten"
    unfolding mergeConfig_undefined_override stored_presets_empty_override rel_sum_Inr
    by (elim exE conjE)
  from t r(1) have "\<exists>a. r = HRef a \<and> length moduleHeap \<le> a \<and> a < length h'"
    by simp
  then obtain a where a: "r = HRef a" "length moduleHeap \<le> a" "a < length h'"
    by (elim exE conjE)
  from P run cell P' r a show ?thesis
    by (intro conjI exI [of _ res] exI [of _ h'] exI [of _ r] exI [of _ a])
qed

end
